theory Spec2Isabelle
  imports Complex_Main "HOL-Library.Word" "HOL-Library.AList" "HOL-Library.Sublist"
begin

section \<open>miniDockReader: a shallow embedding of the DOCX reader\<close>

text \<open>
  The development follows \<^verbatim>\<open>src/miniDockReader.h\<close> and \<^verbatim>\<open>src/src/miniDockReader.cpp\<close>.
  The two third-party layers are taken at their interface: an archive is the list of its
  entries, and the content of an entry is the element tree that tinyxml2 builds from it.
  An outcome is a value of \<open>'a result\<close>: the call returns, an exception of the C++
  standard library leaves it, or the recursion of the style resolver never comes back.
\<close>

subsection \<open>Outcomes\<close>

datatype exn = invalid_argument | out_of_range

datatype 'a result = Returns 'a | Throws exn | Diverges

definition bindR :: "'a result \<Rightarrow> ('a \<Rightarrow> 'b result) \<Rightarrow> 'b result" where
  "bindR m f = (case m of Returns x \<Rightarrow> f x | Throws e \<Rightarrow> Throws e | Diverges \<Rightarrow> Diverges)"

definition returns :: "'a result \<Rightarrow> bool" where
  "returns m = (case m of Returns x \<Rightarrow> True | Throws e \<Rightarrow> False | Diverges \<Rightarrow> False)"

subsection \<open>Numbers of the C++ side\<close>

text \<open>
  A \<^verbatim>\<open>float\<close> is a finite value, an infinity or a NaN. Only three operations of the
  program touch one: the test \<^verbatim>\<open>x > 0\<close>, the comparison \<^verbatim>\<open>x == y\<close> and the division by
  a positive constant. The rounding of a quotient to 32 bits is not part of the model.
\<close>

datatype float = Finite real | PosInf | NegInf | NaN

fun fgt0 :: "float \<Rightarrow> bool" where
  "fgt0 (Finite x) = (0 < x)"
| "fgt0 PosInf = True"
| "fgt0 NegInf = False"
| "fgt0 NaN = False"

fun feq :: "float \<Rightarrow> float \<Rightarrow> bool" where
  "feq NaN y = False"
| "feq x NaN = False"
| "feq x y = (x = y)"

fun fdiv :: "float \<Rightarrow> real \<Rightarrow> float" where
  "fdiv (Finite x) d = Finite (x / d)"
| "fdiv PosInf d = PosInf"
| "fdiv NegInf d = NegInf"
| "fdiv NaN d = NaN"

text \<open>
  \<^verbatim>\<open>std::stof\<close> belongs to the standard library; every function that calls it takes it
  as the parameter \<open>stof\<close>. \<open>stof_decimal\<close> is the instance used on concrete inputs: it
  agrees with \<^verbatim>\<open>std::stof\<close> on an optional sign followed by decimal digits with an
  optional fraction, and on a string that does not begin with a number, for which
  \<^verbatim>\<open>std::stof\<close> raises \<^verbatim>\<open>std::invalid_argument\<close>. Exponents, hexadecimal floats and the
  words inf and nan are outside this instance.
\<close>

definition isspace :: "char \<Rightarrow> bool" where
  "isspace c = (c \<in> set [CHR '' '', CHR 0x09, CHR 0x0A, CHR 0x0B, CHR 0x0C, CHR 0x0D])"

definition isdigit :: "char \<Rightarrow> bool" where
  "isdigit c = (48 \<le> (of_char c :: nat) \<and> (of_char c :: nat) \<le> 57)"

definition isxdigit :: "char \<Rightarrow> bool" where
  "isxdigit c = (isdigit c \<or> (97 \<le> (of_char c :: nat) \<and> (of_char c :: nat) \<le> 102)
                 \<or> (65 \<le> (of_char c :: nat) \<and> (of_char c :: nat) \<le> 70))"

definition digitval :: "char \<Rightarrow> int" where
  "digitval c = (if isdigit c then of_char c - 48
                 else if 97 \<le> (of_char c :: nat) then of_char c - 87
                 else of_char c - 55)"

definition is_negative :: "string \<Rightarrow> bool" where
  "is_negative s = (case s of [] \<Rightarrow> False | c # t \<Rightarrow> c = CHR ''-'')"

definition skip_sign :: "string \<Rightarrow> string" where
  "skip_sign s = (case s of [] \<Rightarrow> [] | c # t \<Rightarrow> if c = CHR ''-'' \<or> c = CHR ''+'' then t else s)"

definition number_of :: "int \<Rightarrow> string \<Rightarrow> int" where
  "number_of base ds = foldl (\<lambda>acc c. acc * base + digitval c) 0 ds"

definition stof_decimal :: "string \<Rightarrow> float result" where
  "stof_decimal str =
     (let s1 = dropWhile isspace str;
          s2 = skip_sign s1;
          ip = takeWhile isdigit s2;
          s3 = dropWhile isdigit s2;
          fp = (case s3 of [] \<Rightarrow> [] | c # t \<Rightarrow> if c = CHR ''.'' then takeWhile isdigit t else []);
          v = real_of_int (number_of 10 (ip @ fp)) / 10 ^ length fp
      in if ip = [] \<and> fp = [] then Throws invalid_argument
         else Returns (Finite (if is_negative s1 then - v else v)))"

text \<open>
  \<^verbatim>\<open>std::atoi(s)\<close> is \<^verbatim>\<open>(int) strtol(s, nullptr, 10)\<close>: white space, an optional sign,
  decimal digits; 0 when there is no digit. \<^verbatim>\<open>strtol\<close> saturates at the bounds of the
  64-bit \<^verbatim>\<open>long\<close>, and the conversion to the 32-bit \<^verbatim>\<open>int\<close> keeps the low 32 bits, so the
  result always lies in the range of \<^verbatim>\<open>int\<close>. For digits within that range it is their
  value; beyond it the C standard gives no value, and this is the one of the C library.
\<close>

definition strtol10 :: "string \<Rightarrow> int" where
  "strtol10 str =
     (let s1 = dropWhile isspace str;
          v = number_of 10 (takeWhile isdigit (skip_sign s1))
      in if is_negative s1 then max (- v) (- 9223372036854775808)
         else min v 9223372036854775807)"

definition atoi :: "string \<Rightarrow> int" where
  "atoi str = (strtol10 str + 2147483648) mod 4294967296 - 2147483648"

text \<open>
  \<^verbatim>\<open>std::stoi(s, nullptr, 16)\<close>: white space, an optional sign, an optional \<^verbatim>\<open>0x\<close> that
  is followed by a hexadecimal digit, hexadecimal digits. No digit at all raises
  \<^verbatim>\<open>std::invalid_argument\<close>, a value outside \<^verbatim>\<open>int\<close> raises \<^verbatim>\<open>std::out_of_range\<close>.
\<close>

definition skip_0x :: "string \<Rightarrow> string" where
  "skip_0x s = (case s of
       z # x # h # t \<Rightarrow>
         if z = CHR ''0'' \<and> (x = CHR ''x'' \<or> x = CHR ''X'') \<and> isxdigit h then h # t else s
     | _ \<Rightarrow> s)"

definition stoi16 :: "string \<Rightarrow> int result" where
  "stoi16 str =
     (let s1 = dropWhile isspace str;
          ds = takeWhile isxdigit (skip_0x (skip_sign s1));
          v = number_of 16 ds
      in if ds = [] then Throws invalid_argument
         else if (if is_negative s1 then 2147483648 < v else 2147483647 < v) then Throws out_of_range
         else Returns (if is_negative s1 then - v else v))"

subsection \<open>The data model of miniDockReader.h\<close>

datatype ElementType = Paragraph | Run

datatype Justification = Left | Center | Right | Justify

text \<open>\<^verbatim>\<open>struct Color\<close>: the octets r, g, b, a.\<close>

datatype Color = Color "8 word" "8 word" "8 word" "8 word"

definition defaultColor :: Color where
  "defaultColor = Color 0 0 0 255"

text \<open>\<^verbatim>\<open>Color(const std::string& hex)\<close>; the cast to \<^verbatim>\<open>uint8_t\<close> is \<open>word_of_int\<close>.\<close>

definition Color_hex :: "string \<Rightarrow> Color result" where
  "Color_hex hex =
     (if length hex = 6 then
        bindR (stoi16 (take 2 hex)) (\<lambda>r.
        bindR (stoi16 (take 2 (drop 2 hex))) (\<lambda>g.
        bindR (stoi16 (take 2 (drop 4 hex))) (\<lambda>b.
        Returns (Color (word_of_int r) (word_of_int g) (word_of_int b) 255))))
      else if length hex = 8 then
        bindR (stoi16 (take 2 hex)) (\<lambda>r.
        bindR (stoi16 (take 2 (drop 2 hex))) (\<lambda>g.
        bindR (stoi16 (take 2 (drop 4 hex))) (\<lambda>b.
        bindR (stoi16 (take 2 (drop 6 hex))) (\<lambda>a.
        Returns (Color (word_of_int r) (word_of_int g) (word_of_int b) (word_of_int a))))))
      else Returns defaultColor)"

fun Color_empty :: "Color \<Rightarrow> bool" where
  "Color_empty (Color r g b a) = (r = 0 \<and> g = 0 \<and> b = 0 \<and> a = 255)"

record Tab =
  position :: float
  alignment :: char
  leader :: string

definition defaultTab :: Tab where
  "defaultTab = \<lparr>position = Finite 0, alignment = CHR ''L'', leader = []\<rparr>"

text \<open>
  \<^verbatim>\<open>struct Style\<close>. The member \<^verbatim>\<open>styleType\<close> has no initialiser: \<open>None\<close> stands for the
  indeterminate value of a default-constructed Style.
\<close>

record Style =
  styleType :: "ElementType option"
  basedOn :: string
  bold :: bool
  italic :: bool
  underline :: bool
  strikeThrough :: bool
  Subscript :: bool
  Superscript :: bool
  color :: Color
  backColor :: Color
  fontFamily :: string
  fontSize :: float
  level :: int
  numbered :: bool
  numberFormat :: string
  numberStyle :: string
  lineSpacing :: float
  spaceBefore :: float
  spaceAfter :: float
  spaceBetweenSameStyle :: bool
  justification :: Justification
  rightDirection :: bool
  indentLeft :: float
  indentRight :: float
  indentFirstLine :: float
  tabs :: "Tab list"

definition defaultStyle :: Style where
  "defaultStyle =
     \<lparr>styleType = None, basedOn = [], bold = False, italic = False, underline = False,
      strikeThrough = False, Subscript = False, Superscript = False,
      color = defaultColor, backColor = defaultColor, fontFamily = [], fontSize = Finite 0,
      level = 0, numbered = False, numberFormat = [], numberStyle = [],
      lineSpacing = Finite 1, spaceBefore = Finite 0, spaceAfter = Finite 0,
      spaceBetweenSameStyle = False, justification = Left, rightDirection = False,
      indentLeft = Finite 0, indentRight = Finite 0, indentFirstLine = Finite 0, tabs = []\<rparr>"

text \<open>\<^verbatim>\<open>struct Run\<close>; the member \<^verbatim>\<open>text\<close> is the field \<open>text'\<close>.\<close>

record Run =
  text' :: string
  lang :: string
  style :: string
  bold :: bool
  italic :: bool
  underline :: bool
  strike :: bool
  subscript :: bool
  superscript :: bool
  color :: Color
  backColor :: Color
  fontFamily :: string
  fontSize :: float
  noteId :: "32 word"

definition defaultRun :: Run where
  "defaultRun =
     \<lparr>text' = [], lang = [], style = [], bold = False, italic = False, underline = False,
      strike = False, subscript = False, superscript = False, color = defaultColor,
      backColor = defaultColor, fontFamily = [], fontSize = Finite 0, noteId = 0\<rparr>"

text \<open>\<^verbatim>\<open>struct Paragraph\<close>.\<close>

record Paragraph =
  style :: string
  level :: int
  numbered :: bool
  numberFormat :: string
  numberStyle :: string
  justification :: Justification
  rightDirection :: bool
  lineSpacing :: float
  spaceBefore :: float
  spaceAfter :: float
  spaceBetweenSameStyle :: bool
  indentLeft :: float
  indentRight :: float
  indentFirstLine :: float
  tabs :: "Tab list"
  runs :: "Run list"

definition defaultParagraph :: Paragraph where
  "defaultParagraph =
     \<lparr>style = [], level = 0, numbered = False, numberFormat = [], numberStyle = [],
      justification = Left, rightDirection = False, lineSpacing = Finite 1,
      spaceBefore = Finite 0, spaceAfter = Finite 0, spaceBetweenSameStyle = False,
      indentLeft = Finite 0, indentRight = Finite 0, indentFirstLine = Finite 0,
      tabs = [], runs = []\<rparr>"

text \<open>\<^verbatim>\<open>struct Note\<close>; the member \<^verbatim>\<open>id\<close> is the field \<open>id'\<close>.\<close>

record Note =
  id' :: int
  paragraphs :: "Paragraph list"

type_synonym StyleMap = "string \<rightharpoonup> Style"

record Document =
  paragraphs :: "Paragraph list"
  styles :: StyleMap
  footnotes :: "int \<rightharpoonup> Note"
  endnotes :: "int \<rightharpoonup> Note"

definition emptyDocument :: Document where
  "emptyDocument =
     \<lparr>paragraphs = [], styles = Map.empty, footnotes = Map.empty, endnotes = Map.empty\<rparr>"

subsection \<open>The style resolver\<close>

text \<open>
  The field-by-field overlay of \<^verbatim>\<open>mergeStyleCached\<close> (the assignments between the
  recursive call and the insertion into the cache): \<open>cur\<close> is the style found in the map,
  \<open>result\<close> the inherited one. No assignment writes \<^verbatim>\<open>result.basedOn\<close>.
\<close>

definition overlayStyle :: "Style \<Rightarrow> Style \<Rightarrow> Style" where
  "overlayStyle cur result = result
     \<lparr>styleType :=
        (if styleType cur \<noteq> Some Paragraph \<and> styleType cur \<noteq> Some Run
         then styleType cur else styleType result),
      Style.bold := (if Style.bold cur then True else Style.bold result),
      Style.italic := (if Style.italic cur then True else Style.italic result),
      Style.underline := (if Style.underline cur then True else Style.underline result),
      strikeThrough := (if strikeThrough cur then True else strikeThrough result),
      Subscript := (if Subscript cur then True else Subscript result),
      Superscript := (if Superscript cur then True else Superscript result),
      Style.color :=
        (if \<not> Color_empty (Style.color cur) then Style.color cur else Style.color result),
      Style.backColor :=
        (if \<not> Color_empty (Style.backColor cur) then Style.backColor cur
         else Style.backColor result),
      Style.fontFamily :=
        (if Style.fontFamily cur \<noteq> [] then Style.fontFamily cur else Style.fontFamily result),
      Style.fontSize :=
        (if fgt0 (Style.fontSize cur) then Style.fontSize cur else Style.fontSize result),
      Style.lineSpacing :=
        (if fgt0 (Style.lineSpacing cur) then Style.lineSpacing cur
         else Style.lineSpacing result),
      Style.spaceBefore :=
        (if fgt0 (Style.spaceBefore cur) then Style.spaceBefore cur
         else Style.spaceBefore result),
      Style.spaceAfter :=
        (if fgt0 (Style.spaceAfter cur) then Style.spaceAfter cur else Style.spaceAfter result),
      Style.spaceBetweenSameStyle :=
        (if Style.spaceBetweenSameStyle cur then True else Style.spaceBetweenSameStyle result),
      Style.justification :=
        (if Style.justification cur \<noteq> Left then Style.justification cur
         else Style.justification result),
      Style.rightDirection :=
        (if Style.rightDirection cur then True else Style.rightDirection result),
      Style.indentLeft :=
        (if fgt0 (Style.indentLeft cur) then Style.indentLeft cur else Style.indentLeft result),
      Style.indentRight :=
        (if fgt0 (Style.indentRight cur) then Style.indentRight cur
         else Style.indentRight result),
      Style.indentFirstLine :=
        (if fgt0 (Style.indentFirstLine cur) then Style.indentFirstLine cur
         else Style.indentFirstLine result),
      Style.tabs :=
        (if Style.tabs cur \<noteq> [] then Style.tabs result @ Style.tabs cur
         else Style.tabs result),
      Style.numbered := (if Style.numbered cur then True else Style.numbered result),
      Style.numberFormat :=
        (if Style.numberFormat cur \<noteq> [] then Style.numberFormat cur
         else Style.numberFormat result),
      Style.numberStyle :=
        (if Style.numberStyle cur \<noteq> [] then Style.numberStyle cur
         else Style.numberStyle result),
      Style.level := (if 0 < Style.level cur then Style.level cur else Style.level result)\<rparr>"

text \<open>
  \<^verbatim>\<open>mergeStyleCached\<close>. The global \<^verbatim>\<open>g_mergedStyleCache\<close> is the argument \<open>cache\<close>, and
  the cache after the call is returned with the style. A recursion that never comes back
  is the value \<open>None\<close>. The cache is written in two places only: for an id that the map
  does not have, and after the recursive call has returned.
\<close>

partial_function (option) mergeStyleCached ::
  "StyleMap \<Rightarrow> StyleMap \<Rightarrow> string \<Rightarrow> (Style \<times> StyleMap) option" where
  "mergeStyleCached stylesMap cache styleId =
     (if styleId = [] then Some (defaultStyle, cache)
      else case cache styleId of
        Some hit \<Rightarrow> Some (hit, cache)
      | None \<Rightarrow>
         (case stylesMap styleId of
            None \<Rightarrow> Some (defaultStyle, cache(styleId \<mapsto> defaultStyle))
          | Some cur \<Rightarrow>
              Option.bind
                (if basedOn cur \<noteq> [] then mergeStyleCached stylesMap cache (basedOn cur)
                 else Some (defaultStyle, cache))
                (\<lambda>(result, cache').
                   Some (overlayStyle cur result,
                         cache'(styleId \<mapsto> overlayStyle cur result)))))"

declare mergeStyleCached.simps [code]

text \<open>
  The basedOn chain that starts at an id ends: it reaches the empty id, an id of the
  cache, or an id that the map does not have.
\<close>

inductive chain_ends :: "StyleMap \<Rightarrow> StyleMap \<Rightarrow> string \<Rightarrow> bool"
  for stylesMap :: StyleMap and cache :: StyleMap where
  chain_empty: "chain_ends stylesMap cache []"
| chain_cached: "cache styleId = Some hit \<Longrightarrow> chain_ends stylesMap cache styleId"
| chain_unknown: "stylesMap styleId = None \<Longrightarrow> chain_ends stylesMap cache styleId"
| chain_step: "stylesMap styleId = Some cur \<Longrightarrow> chain_ends stylesMap cache (basedOn cur)
                 \<Longrightarrow> chain_ends stylesMap cache styleId"

subsection \<open>The run coalescer\<close>

definition sameRunStyle :: "Run \<Rightarrow> Run \<Rightarrow> bool" where
  "sameRunStyle a b =
     (Run.style a = Run.style b \<and>
      lang a = lang b \<and>
      Run.bold a = Run.bold b \<and>
      Run.italic a = Run.italic b \<and>
      Run.underline a = Run.underline b \<and>
      strike a = strike b \<and>
      Run.color a = Run.color b \<and>
      Run.backColor a = Run.backColor b \<and>
      Run.fontFamily a = Run.fontFamily b \<and>
      feq (Run.fontSize a) (Run.fontSize b) \<and>
      subscript a = subscript b \<and>
      superscript a = superscript b)"

text \<open>
  The loop of \<^verbatim>\<open>mergeAdjacentRuns\<close>: \<open>merged\<close> is the vector built so far, whose back is
  its last element, and the second argument holds the runs not yet visited.
\<close>

fun mergeLoop :: "Run list \<Rightarrow> Run list \<Rightarrow> Run list" where
  "mergeLoop merged [] = merged"
| "mergeLoop merged (r # rest) =
     (if sameRunStyle (last merged) r
      then mergeLoop (butlast merged @ [(last merged)\<lparr>text' := text' (last merged) @ text' r\<rparr>]) rest
      else mergeLoop (merged @ [r]) rest)"

definition mergeAdjacentRuns :: "Run list \<Rightarrow> Run list" where
  "mergeAdjacentRuns rs =
     (if length rs < 2 then rs else mergeLoop [rs ! 0] (drop 1 rs))"

subsection \<open>The element tree of tinyxml2\<close>

text \<open>
  An element has a name, its attributes in document order, the text that \<^verbatim>\<open>GetText()\<close>
  returns (\<open>None\<close> for a null pointer) and its child elements in document order.
  \<^verbatim>\<open>FirstChildElement(name)\<close> is the first child of that name, and the loop
  \<^verbatim>\<open>for (c = e->FirstChildElement(n); c; c = c->NextSiblingElement(n))\<close> visits
  \<open>ChildElements e n\<close>. A document is the list of its top-level elements.
\<close>

datatype XMLElement =
  XMLElement (Name: string) (Attributes: "(string \<times> string) list") (GetText: "string option")
    (Children: "XMLElement list")

type_synonym XMLDocument = "XMLElement list"

definition Attribute :: "XMLElement \<Rightarrow> string \<Rightarrow> string option" where
  "Attribute e n = map_of (Attributes e) n"

definition FirstChildElement :: "XMLElement \<Rightarrow> string \<Rightarrow> XMLElement option" where
  "FirstChildElement e n = find (\<lambda>c. Name c = n) (Children e)"

definition ChildElements :: "XMLElement \<Rightarrow> string \<Rightarrow> XMLElement list" where
  "ChildElements e n = filter (\<lambda>c. Name c = n) (Children e)"

definition RootElement :: "XMLDocument \<Rightarrow> string \<Rightarrow> XMLElement option" where
  "RootElement doc n = find (\<lambda>c. Name c = n) doc"

text \<open>
  The idiom \<^verbatim>\<open>if (XMLElement *c = e->FirstChildElement(child)) if (c->Attribute(attr)) ...\<close>:
  the attribute of the first child of that name, when both exist.
\<close>

definition childAttr :: "XMLElement \<Rightarrow> string \<Rightarrow> string \<Rightarrow> string option" where
  "childAttr e child attr =
     (case FirstChildElement e child of None \<Rightarrow> None | Some c \<Rightarrow> Attribute c attr)"

definition hasChild :: "XMLElement \<Rightarrow> string \<Rightarrow> bool" where
  "hasChild e child = (FirstChildElement e child \<noteq> None)"

text \<open>
  \<^verbatim>\<open>x = std::stof(attr) / d\<close> under \<^verbatim>\<open>if (attr)\<close>, and \<^verbatim>\<open>x = Color(attr)\<close> under
  \<^verbatim>\<open>if (attr)\<close>: the second argument is the value that \<open>x\<close> keeps when the attribute is
  absent.
\<close>

definition readFloat ::
  "(string \<Rightarrow> float result) \<Rightarrow> string option \<Rightarrow> real \<Rightarrow> float \<Rightarrow> float result" where
  "readFloat stof attr d keep =
     (case attr of None \<Rightarrow> Returns keep
      | Some v \<Rightarrow> bindR (stof v) (\<lambda>x. Returns (fdiv x d)))"

definition readColor :: "string option \<Rightarrow> Color \<Rightarrow> Color result" where
  "readColor attr keep = (case attr of None \<Rightarrow> Returns keep | Some v \<Rightarrow> Color_hex v)"

definition attrOr :: "string option \<Rightarrow> string \<Rightarrow> string" where
  "attrOr attr keep = (case attr of None \<Rightarrow> keep | Some v \<Rightarrow> v)"

definition parseJc :: "string option \<Rightarrow> Justification \<Rightarrow> Justification" where
  "parseJc attr keep =
     (case attr of None \<Rightarrow> keep
      | Some val \<Rightarrow> if val = ''center'' then Center
                    else if val = ''right'' then Right
                    else if val = ''both'' then Justify
                    else keep)"

subsection \<open>parseStyles\<close>

text \<open>
  The body of the loop over \<^verbatim>\<open>w:tab\<close>, the same in parseStyles and readParagraph. The
  alignment is \<^verbatim>\<open>Attribute("w:val")[0]\<close>, the terminating zero of an empty value.
\<close>

definition parseTab :: "(string \<Rightarrow> float result) \<Rightarrow> XMLElement \<Rightarrow> Tab result" where
  "parseTab stof tab =
     bindR (readFloat stof (Attribute tab ''w:pos'') 20 (position defaultTab)) (\<lambda>pos.
     Returns (defaultTab
       \<lparr>position := pos,
        alignment := (case Attribute tab ''w:val'' of None \<Rightarrow> alignment defaultTab
                      | Some v \<Rightarrow> (case v of [] \<Rightarrow> CHR 0x00 | c # t \<Rightarrow> c)),
        leader := attrOr (Attribute tab ''w:leader'') (leader defaultTab)\<rparr>))"

fun parseTabs :: "(string \<Rightarrow> float result) \<Rightarrow> XMLElement list \<Rightarrow> Tab list result" where
  "parseTabs stof [] = Returns []"
| "parseTabs stof (tab # rest) =
     bindR (parseTab stof tab) (\<lambda>t.
     bindR (parseTabs stof rest) (\<lambda>ts. Returns (t # ts)))"

text \<open>The block under \<^verbatim>\<open>if (XMLElement *rPr = s->FirstChildElement("w:rPr"))\<close>.\<close>

definition parseStyle_rPr ::
  "(string \<Rightarrow> float result) \<Rightarrow> XMLElement \<Rightarrow> Style \<Rightarrow> Style result" where
  "parseStyle_rPr stof rPr st =
     bindR (readColor (childAttr rPr ''w:color'' ''w:val'') (Style.color st)) (\<lambda>c.
     bindR (readColor (childAttr rPr ''w:shd'' ''w:fill'') (Style.backColor st)) (\<lambda>bc.
     bindR (readFloat stof (childAttr rPr ''w:sz'' ''w:val'') 2 (Style.fontSize st)) (\<lambda>sz.
     Returns (st
       \<lparr>Style.bold := (if hasChild rPr ''w:b'' then True else Style.bold st),
        Style.italic := (if hasChild rPr ''w:i'' then True else Style.italic st),
        Style.underline := (if hasChild rPr ''w:u'' then True else Style.underline st),
        strikeThrough := (if hasChild rPr ''w:strike'' then True else strikeThrough st),
        Subscript := (if hasChild rPr ''w:subscript'' then True else Subscript st),
        Superscript := (if hasChild rPr ''w:superscript'' then True else Superscript st),
        Style.color := c,
        Style.backColor := bc,
        Style.fontFamily := attrOr (childAttr rPr ''w:rFonts'' ''w:ascii'') (Style.fontFamily st),
        Style.fontSize := sz\<rparr>))))"

text \<open>
  The block under \<^verbatim>\<open>if (XMLElement *pPr = s->FirstChildElement("w:pPr"))\<close>. The level
  is written from \<^verbatim>\<open>w:outlineLvl\<close> first and from \<^verbatim>\<open>w:numPr/w:ilvl\<close> after it.
\<close>

definition parseStyle_pPr ::
  "(string \<Rightarrow> float result) \<Rightarrow> XMLElement \<Rightarrow> Style \<Rightarrow> Style result" where
  "parseStyle_pPr stof pPr st =
     bindR (readFloat stof (childAttr pPr ''w:spacing'' ''w:line'') 240 (Style.lineSpacing st)) (\<lambda>line.
     bindR (readFloat stof (childAttr pPr ''w:spacing'' ''w:before'') 20 (Style.spaceBefore st)) (\<lambda>before.
     bindR (readFloat stof (childAttr pPr ''w:spacing'' ''w:after'') 20 (Style.spaceAfter st)) (\<lambda>after.
     bindR (readFloat stof (childAttr pPr ''w:ind'' ''w:left'') 20 (Style.indentLeft st)) (\<lambda>left.
     bindR (readFloat stof (childAttr pPr ''w:ind'' ''w:right'') 20 (Style.indentRight st)) (\<lambda>right.
     bindR (readFloat stof (childAttr pPr ''w:ind'' ''w:firstLine'') 20 (Style.indentFirstLine st)) (\<lambda>firstLine.
     bindR (case FirstChildElement pPr ''w:tabs'' of None \<Rightarrow> Returns []
            | Some tabsEl \<Rightarrow> parseTabs stof (ChildElements tabsEl ''w:tab'')) (\<lambda>ts.
     Returns (st
       \<lparr>Style.level :=
          (case FirstChildElement pPr ''w:numPr'' of
             None \<Rightarrow> (case childAttr pPr ''w:outlineLvl'' ''w:val'' of
                        None \<Rightarrow> Style.level st | Some v \<Rightarrow> atoi v)
           | Some num \<Rightarrow>
               (case childAttr num ''w:ilvl'' ''w:val'' of
                  None \<Rightarrow> (case childAttr pPr ''w:outlineLvl'' ''w:val'' of
                             None \<Rightarrow> Style.level st | Some v \<Rightarrow> atoi v)
                | Some v \<Rightarrow> atoi v)),
        Style.numberFormat :=
          (case FirstChildElement pPr ''w:numPr'' of None \<Rightarrow> Style.numberFormat st
           | Some num \<Rightarrow>
               (case childAttr num ''w:numId'' ''w:val'' of
                  None \<Rightarrow> Style.numberFormat st | Some v \<Rightarrow> ''decimal'')),
        Style.numberStyle :=
          (case FirstChildElement pPr ''w:numPr'' of None \<Rightarrow> Style.numberStyle st
           | Some num \<Rightarrow> attrOr (childAttr num ''w:numStyle'' ''w:val'') (Style.numberStyle st)),
        Style.numbered := (if hasChild pPr ''w:numPr'' then True else Style.numbered st),
        Style.lineSpacing := line,
        Style.spaceBefore := before,
        Style.spaceAfter := after,
        Style.spaceBetweenSameStyle :=
          (if childAttr pPr ''w:spacing'' ''w:lineRule'' = Some ''exact'' then True
           else Style.spaceBetweenSameStyle st),
        Style.indentLeft := left,
        Style.indentRight := right,
        Style.indentFirstLine := firstLine,
        Style.justification := parseJc (childAttr pPr ''w:jc'' ''w:val'') (Style.justification st),
        Style.tabs := Style.tabs st @ ts,
        Style.rightDirection :=
          (if hasChild pPr ''w:bidi'' then True else Style.rightDirection st)\<rparr>))))))))"

text \<open>One \<^verbatim>\<open>w:style\<close> element that has a \<^verbatim>\<open>w:styleId\<close>: the Style put into the map.\<close>

definition parseStyle :: "(string \<Rightarrow> float result) \<Rightarrow> XMLElement \<Rightarrow> Style result" where
  "parseStyle stof s =
     bindR (case FirstChildElement s ''w:rPr'' of
              None \<Rightarrow> Returns (defaultStyle
                \<lparr>styleType := (case Attribute s ''w:type'' of None \<Rightarrow> None
                     | Some t \<Rightarrow> Some (if t = ''paragraph'' then Paragraph else Run)),
                 basedOn := attrOr (childAttr s ''w:basedOn'' ''w:val'') []\<rparr>)
            | Some rPr \<Rightarrow> parseStyle_rPr stof rPr (defaultStyle
                \<lparr>styleType := (case Attribute s ''w:type'' of None \<Rightarrow> None
                     | Some t \<Rightarrow> Some (if t = ''paragraph'' then Paragraph else Run)),
                 basedOn := attrOr (childAttr s ''w:basedOn'' ''w:val'') []\<rparr>)) (\<lambda>st.
     case FirstChildElement s ''w:pPr'' of
       None \<Rightarrow> Returns st
     | Some pPr \<Rightarrow> parseStyle_pPr stof pPr st)"

text \<open>
  The loop over \<^verbatim>\<open>w:style\<close>; \<^verbatim>\<open>map.emplace\<close> keeps the style already stored under
  an id.
\<close>

fun parseStylesLoop ::
  "(string \<Rightarrow> float result) \<Rightarrow> XMLElement list \<Rightarrow> StyleMap \<Rightarrow> StyleMap result" where
  "parseStylesLoop stof [] m = Returns m"
| "parseStylesLoop stof (s # rest) m =
     (case Attribute s ''w:styleId'' of
        None \<Rightarrow> parseStylesLoop stof rest m
      | Some sid \<Rightarrow>
          bindR (parseStyle stof s) (\<lambda>st.
          parseStylesLoop stof rest (if m sid = None then m(sid \<mapsto> st) else m)))"

definition parseStyles :: "(string \<Rightarrow> float result) \<Rightarrow> XMLDocument \<Rightarrow> StyleMap result" where
  "parseStyles stof xml =
     (case RootElement xml ''w:styles'' of
        None \<Rightarrow> Returns Map.empty
      | Some rootEl \<Rightarrow> parseStylesLoop stof (ChildElements rootEl ''w:style'') Map.empty)"

subsection \<open>readParagraph\<close>

text \<open>A call of \<^verbatim>\<open>mergeStyleCached\<close> as an outcome.\<close>

definition resolveR :: "StyleMap \<Rightarrow> StyleMap \<Rightarrow> string \<Rightarrow> (Style \<times> StyleMap) result" where
  "resolveR stylesMap cache styleId =
     (case mergeStyleCached stylesMap cache styleId of
        None \<Rightarrow> Diverges
      | Some y \<Rightarrow> Returns y)"

text \<open>
  The trimming of a text without \<^verbatim>\<open>xml:space="preserve"\<close>:
  \<^verbatim>\<open>find_first_not_of(' ')\<close>, \<^verbatim>\<open>find_last_not_of(' ')\<close> and \<^verbatim>\<open>substr\<close>.
\<close>

definition trimSpaces :: "string \<Rightarrow> string" where
  "trimSpaces s =
     (if dropWhile (\<lambda>c. c = CHR '' '') s = [] then []
      else rev (dropWhile (\<lambda>c. c = CHR '' '') (rev (dropWhile (\<lambda>c. c = CHR '' '') s))))"

definition runText :: "XMLElement \<Rightarrow> string" where
  "runText r =
     (case FirstChildElement r ''w:t'' of
        None \<Rightarrow> []
      | Some t \<Rightarrow>
          if Attribute t ''xml:space'' = Some ''preserve'' then attrOr (GetText t) []
          else trimSpaces (attrOr (GetText t) []))"

text \<open>
  The first \<^verbatim>\<open>w:footnoteReference\<close> child of a run together with its \<^verbatim>\<open>w:id\<close>, when
  both exist: the two nested tests that open the body of the loop over \<^verbatim>\<open>w:r\<close>.
\<close>

definition footnoteReference :: "XMLElement \<Rightarrow> (XMLElement \<times> string) option" where
  "footnoteReference r =
     (case FirstChildElement r ''w:footnoteReference'' of
        None \<Rightarrow> None
      | Some fr \<Rightarrow> (case Attribute fr ''w:id'' of None \<Rightarrow> None | Some v \<Rightarrow> Some (fr, v)))"

text \<open>
  The body of the loop over \<^verbatim>\<open>w:r\<close>: the Run pushed for the element \<open>r\<close>. \<open>pStyleId\<close>
  is the paragraph style id after its default "Normal". The assignment of an \<^verbatim>\<open>int\<close> to
  the \<^verbatim>\<open>uint32_t\<close> member \<^verbatim>\<open>noteId\<close> is \<open>word_of_int\<close>.
\<close>

definition readRun ::
  "(string \<Rightarrow> float result) \<Rightarrow> StyleMap \<Rightarrow> string \<Rightarrow> XMLElement \<Rightarrow> StyleMap
    \<Rightarrow> (Run \<times> StyleMap) result" where
  "readRun stof stylesMap pStyleId r cache =
     (case footnoteReference r of
        Some (fr, v) \<Rightarrow>
          Returns (defaultRun\<lparr>noteId := word_of_int (atoi v), text' := attrOr (GetText fr) []\<rparr>,
                   cache)
      | None \<Rightarrow>
         (case FirstChildElement r ''w:rPr'' of
            None \<Rightarrow> Returns (defaultRun\<lparr>text' := runText r\<rparr>, cache)
          | Some rPr \<Rightarrow>
              bindR (resolveR stylesMap cache
                       (if attrOr (childAttr rPr ''w:rStyle'' ''w:val'') [] = [] then pStyleId
                        else attrOr (childAttr rPr ''w:rStyle'' ''w:val'') [])) (\<lambda>(rStyle, cache1).
              bindR (readColor (childAttr rPr ''w:color'' ''w:val'')
                       (if \<not> Color_empty (Style.color rStyle) then Style.color rStyle
                        else defaultColor)) (\<lambda>c.
              bindR (readColor (childAttr rPr ''w:shd'' ''w:fill'')
                       (if \<not> Color_empty (Style.backColor rStyle) then Style.backColor rStyle
                        else defaultColor)) (\<lambda>bc.
              bindR (readFloat stof (childAttr rPr ''w:sz'' ''w:val'') 2
                       (if fgt0 (Style.fontSize rStyle) then Style.fontSize rStyle
                        else Finite 0)) (\<lambda>sz.
              Returns (defaultRun
                \<lparr>text' := runText r,
                 lang := attrOr (childAttr rPr ''w:lang'' ''w:val'') [],
                 Run.bold := (Style.bold rStyle \<or> hasChild rPr ''w:b''),
                 Run.italic := (Style.italic rStyle \<or> hasChild rPr ''w:i''),
                 Run.underline := (Style.underline rStyle \<or> hasChild rPr ''w:u''),
                 strike := (strikeThrough rStyle \<or> hasChild rPr ''w:strike''),
                 subscript := (Subscript rStyle \<or> hasChild rPr ''w:subscript''),
                 superscript := (Superscript rStyle \<or> hasChild rPr ''w:superscript''),
                 Run.color := c,
                 Run.backColor := bc,
                 Run.fontFamily :=
                   attrOr (childAttr rPr ''w:rFonts'' ''w:ascii'')
                     (if Style.fontFamily rStyle \<noteq> [] then Style.fontFamily rStyle else []),
                 Run.fontSize := sz\<rparr>, cache1)))))))"

fun readRuns ::
  "(string \<Rightarrow> float result) \<Rightarrow> StyleMap \<Rightarrow> string \<Rightarrow> XMLElement list \<Rightarrow> StyleMap
    \<Rightarrow> (Run list \<times> StyleMap) result" where
  "readRuns stof stylesMap pStyleId [] cache = Returns ([], cache)"
| "readRuns stof stylesMap pStyleId (r # rest) cache =
     bindR (readRun stof stylesMap pStyleId r cache) (\<lambda>(run, cache1).
     bindR (readRuns stof stylesMap pStyleId rest cache1) (\<lambda>(rs, cache2).
     Returns (run # rs, cache2)))"

text \<open>
  The block under \<^verbatim>\<open>if (XMLElement *pPr = p->FirstChildElement("w:pPr"))\<close>: the
  paragraph seeded from the resolved style and overlaid with the direct properties.
  \<open>pStyleId\<close> is the value of \<^verbatim>\<open>w:pStyle\<close>, empty when there is none.
\<close>

definition readParagraph_pPr ::
  "(string \<Rightarrow> float result) \<Rightarrow> StyleMap \<Rightarrow> XMLElement \<Rightarrow> string \<Rightarrow> StyleMap
    \<Rightarrow> (Paragraph \<times> StyleMap) result" where
  "readParagraph_pPr stof stylesMap pPr pStyleId cache =
     bindR (resolveR stylesMap cache (if pStyleId = [] then ''Normal'' else pStyleId))
       (\<lambda>(paraStyle, cache1).
     bindR (readFloat stof (childAttr pPr ''w:ind'' ''w:left'') 20
              (Style.indentLeft paraStyle)) (\<lambda>left.
     bindR (readFloat stof (childAttr pPr ''w:ind'' ''w:right'') 20
              (Style.indentRight paraStyle)) (\<lambda>right.
     bindR (readFloat stof (childAttr pPr ''w:ind'' ''w:firstLine'') 20
              (Style.indentFirstLine paraStyle)) (\<lambda>firstLine.
     bindR (readFloat stof (childAttr pPr ''w:spacing'' ''w:line'') 240
              (if fgt0 (Style.lineSpacing paraStyle) then Style.lineSpacing paraStyle
               else Paragraph.lineSpacing defaultParagraph)) (\<lambda>line.
     bindR (readFloat stof (childAttr pPr ''w:spacing'' ''w:before'') 20
              (Style.spaceBefore paraStyle)) (\<lambda>before.
     bindR (readFloat stof (childAttr pPr ''w:spacing'' ''w:after'') 20
              (Style.spaceAfter paraStyle)) (\<lambda>after.
     bindR (case FirstChildElement pPr ''w:tabs'' of
              None \<Rightarrow> Returns (Style.tabs paraStyle)
            | Some tabsEl \<Rightarrow> parseTabs stof (ChildElements tabsEl ''w:tab'')) (\<lambda>ts.
     Returns (defaultParagraph
       \<lparr>Paragraph.style := pStyleId,
        Paragraph.level :=
          (case FirstChildElement pPr ''w:numPr'' of None \<Rightarrow> Style.level paraStyle
           | Some numPr \<Rightarrow>
               (case childAttr numPr ''w:ilvl'' ''w:val'' of
                  None \<Rightarrow> Style.level paraStyle | Some v \<Rightarrow> atoi v)),
        Paragraph.numbered :=
          (if hasChild pPr ''w:numPr'' then True else Style.numbered paraStyle),
        Paragraph.numberFormat :=
          (case FirstChildElement pPr ''w:numPr'' of None \<Rightarrow> Style.numberFormat paraStyle
           | Some numPr \<Rightarrow>
               (case childAttr numPr ''w:numId'' ''w:val'' of
                  None \<Rightarrow> Style.numberFormat paraStyle | Some v \<Rightarrow> ''decimal'')),
        Paragraph.numberStyle :=
          (case FirstChildElement pPr ''w:numPr'' of None \<Rightarrow> Style.numberStyle paraStyle
           | Some numPr \<Rightarrow>
               attrOr (childAttr numPr ''w:numStyle'' ''w:val'') (Style.numberStyle paraStyle)),
        Paragraph.justification :=
          parseJc (childAttr pPr ''w:jc'' ''w:val'') (Style.justification paraStyle),
        Paragraph.rightDirection :=
          (if hasChild pPr ''w:bidi'' then True else Style.rightDirection paraStyle),
        Paragraph.lineSpacing := line,
        Paragraph.spaceBefore := before,
        Paragraph.spaceAfter := after,
        Paragraph.spaceBetweenSameStyle :=
          (if childAttr pPr ''w:spacing'' ''w:lineRule'' = Some ''exact'' then True
           else Style.spaceBetweenSameStyle paraStyle),
        Paragraph.indentLeft := left,
        Paragraph.indentRight := right,
        Paragraph.indentFirstLine := firstLine,
        Paragraph.tabs := ts\<rparr>, cache1)))))))))"

text \<open>
  \<^verbatim>\<open>readParagraph\<close>: the block of \<^verbatim>\<open>w:pPr\<close> when the paragraph has one, the second
  call of the resolver on the defaulted style id, whose result is not used, the loop
  over the runs and the coalescer.
\<close>

definition pStyleIdOf :: "XMLElement \<Rightarrow> string" where
  "pStyleIdOf p =
     (case FirstChildElement p ''w:pPr'' of
        None \<Rightarrow> []
      | Some pPr \<Rightarrow> attrOr (childAttr pPr ''w:pStyle'' ''w:val'') [])"

definition readParagraph ::
  "(string \<Rightarrow> float result) \<Rightarrow> XMLElement \<Rightarrow> StyleMap \<Rightarrow> StyleMap
    \<Rightarrow> (Paragraph \<times> StyleMap) result" where
  "readParagraph stof p stylesMap cache =
     bindR (case FirstChildElement p ''w:pPr'' of
              None \<Rightarrow> Returns (defaultParagraph, cache)
            | Some pPr \<Rightarrow> readParagraph_pPr stof stylesMap pPr (pStyleIdOf p) cache)
       (\<lambda>(para, cache1).
     bindR (resolveR stylesMap cache1 (if pStyleIdOf p = [] then ''Normal'' else pStyleIdOf p))
       (\<lambda>(paraStyle, cache2).
     bindR (readRuns stof stylesMap (if pStyleIdOf p = [] then ''Normal'' else pStyleIdOf p)
              (ChildElements p ''w:r'') cache2) (\<lambda>(rs, cache3).
     Returns (para\<lparr>runs := mergeAdjacentRuns rs\<rparr>, cache3))))"

fun readParagraphs ::
  "(string \<Rightarrow> float result) \<Rightarrow> XMLElement list \<Rightarrow> StyleMap \<Rightarrow> StyleMap
    \<Rightarrow> (Paragraph list \<times> StyleMap) result" where
  "readParagraphs stof [] stylesMap cache = Returns ([], cache)"
| "readParagraphs stof (p # rest) stylesMap cache =
     bindR (readParagraph stof p stylesMap cache) (\<lambda>(para, cache1).
     bindR (readParagraphs stof rest stylesMap cache1) (\<lambda>(paras, cache2).
     Returns (para # paras, cache2)))"

subsection \<open>Notes, the main document and the entry points\<close>

text \<open>
  \<^verbatim>\<open>parseFootnotes\<close> and \<^verbatim>\<open>parseEndnotes\<close> are the same text up to the two element
  names; \<open>parseNotesLoop\<close> is their loop over the note elements.
\<close>

fun parseNotesLoop ::
  "(string \<Rightarrow> float result) \<Rightarrow> StyleMap \<Rightarrow> XMLElement list \<Rightarrow> (int \<rightharpoonup> Note) \<Rightarrow> StyleMap
    \<Rightarrow> ((int \<rightharpoonup> Note) \<times> StyleMap) result" where
  "parseNotesLoop stof stylesMap [] m cache = Returns (m, cache)"
| "parseNotesLoop stof stylesMap (fn # rest) m cache =
     (case Attribute fn ''w:id'' of
        None \<Rightarrow> parseNotesLoop stof stylesMap rest m cache
      | Some idAttr \<Rightarrow>
          if Attribute fn ''w:type'' = Some ''separator''
             \<or> Attribute fn ''w:type'' = Some ''continuationSeparator''
          then parseNotesLoop stof stylesMap rest m cache
          else
            bindR (readParagraphs stof (ChildElements fn ''w:p'') stylesMap cache)
              (\<lambda>(paras, cache1).
            parseNotesLoop stof stylesMap rest
              (m(atoi idAttr \<mapsto> \<lparr>id' = atoi idAttr, Note.paragraphs = paras\<rparr>)) cache1))"

definition parseFootnotes ::
  "(string \<Rightarrow> float result) \<Rightarrow> XMLDocument \<Rightarrow> StyleMap \<Rightarrow> StyleMap
    \<Rightarrow> ((int \<rightharpoonup> Note) \<times> StyleMap) result" where
  "parseFootnotes stof xml stylesMap cache =
     (case RootElement xml ''w:footnotes'' of
        None \<Rightarrow> Returns (Map.empty, cache)
      | Some rootEl \<Rightarrow>
          parseNotesLoop stof stylesMap (ChildElements rootEl ''w:footnote'') Map.empty cache)"

definition parseEndnotes ::
  "(string \<Rightarrow> float result) \<Rightarrow> XMLDocument \<Rightarrow> StyleMap \<Rightarrow> StyleMap
    \<Rightarrow> ((int \<rightharpoonup> Note) \<times> StyleMap) result" where
  "parseEndnotes stof xml stylesMap cache =
     (case RootElement xml ''w:endnotes'' of
        None \<Rightarrow> Returns (Map.empty, cache)
      | Some rootEl \<Rightarrow>
          parseNotesLoop stof stylesMap (ChildElements rootEl ''w:endnote'') Map.empty cache)"

definition parseMainDocument ::
  "(string \<Rightarrow> float result) \<Rightarrow> XMLDocument \<Rightarrow> StyleMap \<Rightarrow> StyleMap
    \<Rightarrow> (Paragraph list \<times> StyleMap) result" where
  "parseMainDocument stof xml stylesMap cache =
     (case RootElement xml ''w:document'' of
        None \<Rightarrow> Returns ([], cache)
      | Some rootEl \<Rightarrow>
         (case FirstChildElement rootEl ''w:body'' of
            None \<Rightarrow> Returns ([], cache)
          | Some body \<Rightarrow> readParagraphs stof (ChildElements body ''w:p'') stylesMap cache))"

text \<open>
  An archive is the list of its entries, each a name with the element tree of its content;
  \<open>None\<close> is a path or a buffer that miniz cannot open. \<^verbatim>\<open>readMultipleFilesFromZIP\<close> and
  \<^verbatim>\<open>readMultipleFilesFromZIPMemory\<close> keep the entries whose name is one of \<open>files\<close>.
\<close>

type_synonym archive = "(string \<times> XMLDocument) list"

definition readMultipleFilesFromZIP ::
  "archive option \<Rightarrow> string list \<Rightarrow> (string \<times> XMLDocument) list" where
  "readMultipleFilesFromZIP zipFile files =
     (case zipFile of
        None \<Rightarrow> []
      | Some entries \<Rightarrow>
          foldl (\<lambda>out (fname, data).
                   case find (\<lambda>name. fname = name) files of
                     None \<Rightarrow> out
                   | Some name \<Rightarrow> AList.update name data out) [] entries)"

definition filesToRead :: "string list" where
  "filesToRead = [''word/document.xml'', ''word/styles.xml'', ''word/footnotes.xml'',
                  ''word/endnotes.xml'']"

text \<open>\<^verbatim>\<open>fileData[name]\<close>: the content of the entry, empty when there is none.\<close>

definition fileOf :: "(string \<times> XMLDocument) list \<Rightarrow> string \<Rightarrow> XMLDocument" where
  "fileOf fileData name = (case map_of fileData name of None \<Rightarrow> [] | Some d \<Rightarrow> d)"

text \<open>
  The four parsers in the order of the entry points, on the cache that
  \<^verbatim>\<open>g_mergedStyleCache.clear()\<close> has emptied.
\<close>

definition parseAll ::
  "(string \<Rightarrow> float result) \<Rightarrow> (string \<times> XMLDocument) list \<Rightarrow> Document result" where
  "parseAll stof fileData =
     bindR (parseStyles stof (fileOf fileData ''word/styles.xml'')) (\<lambda>st.
     bindR (parseFootnotes stof (fileOf fileData ''word/footnotes.xml'') st Map.empty)
       (\<lambda>(fns, cache1).
     bindR (parseEndnotes stof (fileOf fileData ''word/endnotes.xml'') st cache1)
       (\<lambda>(ens, cache2).
     bindR (parseMainDocument stof (fileOf fileData ''word/document.xml'') st cache2)
       (\<lambda>(paras, cache3).
     Returns \<lparr>Document.paragraphs = paras, styles = st, footnotes = fns, endnotes = ens\<rparr>))))"

definition readDocument :: "(string \<Rightarrow> float result) \<Rightarrow> archive option \<Rightarrow> Document result" where
  "readDocument stof zipFile =
     (if readMultipleFilesFromZIP zipFile filesToRead = [] then Returns emptyDocument
      else parseAll stof (readMultipleFilesFromZIP zipFile filesToRead))"

definition readDocumentFromMemory ::
  "(string \<Rightarrow> float result) \<Rightarrow> archive option \<Rightarrow> Document result" where
  "readDocumentFromMemory stof zipFile = parseAll stof (readMultipleFilesFromZIP zipFile filesToRead)"

subsection \<open>Predicates of the statements\<close>

text \<open>
  The attributes that the reader passes to \<^verbatim>\<open>std::stof\<close> and to the constructor of Color,
  each with the name of the element that carries it.
\<close>

definition floatAttributes :: "(string \<times> string) list" where
  "floatAttributes =
     [(''w:sz'', ''w:val''), (''w:spacing'', ''w:line''), (''w:spacing'', ''w:before''),
      (''w:spacing'', ''w:after''), (''w:ind'', ''w:left''), (''w:ind'', ''w:right''),
      (''w:ind'', ''w:firstLine''), (''w:tab'', ''w:pos'')]"

definition colorAttributes :: "(string \<times> string) list" where
  "colorAttributes = [(''w:color'', ''w:val''), (''w:shd'', ''w:fill'')]"

text \<open>
  In an element and everything below it, \<^verbatim>\<open>std::stof\<close> accepts the value of every such
  number and the constructor of Color the value of every such colour.
\<close>

fun numbersOk :: "(string \<Rightarrow> float result) \<Rightarrow> XMLElement \<Rightarrow> bool" where
  "numbersOk stof (XMLElement n as t cs) =
     ((\<forall>(k, v) \<in> set as.
         ((n, k) \<in> set floatAttributes \<longrightarrow> returns (stof v)) \<and>
         ((n, k) \<in> set colorAttributes \<longrightarrow> returns (Color_hex v)))
      \<and> (\<forall>c \<in> set cs. numbersOk stof c))"

text \<open>Every run of every paragraph of every note has an empty style id.\<close>

definition notesUnstyled :: "(int \<rightharpoonup> Note) \<Rightarrow> bool" where
  "notesUnstyled m =
     (\<forall>n \<in> ran m. \<forall>para \<in> set (Note.paragraphs n). \<forall>r \<in> set (runs para). Run.style r = [])"






text \<open>The exception that leaves a call, if one does.\<close>

definition thrown :: "'a result \<Rightarrow> exn option" where
  "thrown m = (case m of Returns x \<Rightarrow> None | Throws e \<Rightarrow> Some e | Diverges \<Rightarrow> None)"

subsection \<open>Inputs used in the examples\<close>

text \<open>The value of an outcome without the cache that comes with it.\<close>

definition valueOf :: "('a \<times> StyleMap) result \<Rightarrow> 'a result" where
  "valueOf m = bindR m (\<lambda>(x, cache). Returns x)"

text \<open>Two styles based on each other, and two styles in a chain.\<close>

definition cyclicStyles :: StyleMap where
  "cyclicStyles = [''A'' \<mapsto> defaultStyle\<lparr>basedOn := ''B'', Style.italic := True\<rparr>,
                   ''B'' \<mapsto> defaultStyle\<lparr>basedOn := ''A'', Style.bold := True\<rparr>]"

definition chainStyles :: StyleMap where
  "chainStyles = [''A'' \<mapsto> defaultStyle\<lparr>basedOn := ''B'', Style.italic := True\<rparr>,
                  ''B'' \<mapsto> defaultStyle\<lparr>Style.bold := True\<rparr>]"

text \<open>
  A styles.xml in which style B sets \<^verbatim>\<open>w:spacing w:line="360"\<close> and style A is based on B
  and has no \<^verbatim>\<open>w:spacing\<close>.
\<close>

definition spacingStylesXml :: XMLDocument where
  "spacingStylesXml =
     [XMLElement ''w:styles'' [] None
       [XMLElement ''w:style'' [(''w:type'', ''paragraph''), (''w:styleId'', ''B'')] None
          [XMLElement ''w:pPr'' [] None [XMLElement ''w:spacing'' [(''w:line'', ''360'')] None []]],
        XMLElement ''w:style'' [(''w:type'', ''paragraph''), (''w:styleId'', ''A'')] None
          [XMLElement ''w:basedOn'' [(''w:val'', ''B'')] None []]]]"

text \<open>A paragraph of a plain run "hello" followed by a reference to footnote 1.\<close>

definition noteParagraph :: XMLElement where
  "noteParagraph =
     XMLElement ''w:p'' [] None
       [XMLElement ''w:r'' [] None [XMLElement ''w:t'' [] (Some ''hello'') []],
        XMLElement ''w:r'' [] None
          [XMLElement ''w:footnoteReference'' [(''w:id'', ''1'')] None []]]"

text \<open>
  A styles.xml whose style Normal is bold and centred; a paragraph without \<^verbatim>\<open>w:pPr\<close> whose
  run has no \<^verbatim>\<open>w:rPr\<close>; the same paragraph with an empty \<^verbatim>\<open>w:pPr\<close> and an empty
  \<^verbatim>\<open>w:rPr\<close>.
\<close>

definition normalStylesXml :: XMLDocument where
  "normalStylesXml =
     [XMLElement ''w:styles'' [] None
       [XMLElement ''w:style'' [(''w:type'', ''paragraph''), (''w:styleId'', ''Normal'')] None
          [XMLElement ''w:rPr'' [] None [XMLElement ''w:b'' [] None []],
           XMLElement ''w:pPr'' [] None [XMLElement ''w:jc'' [(''w:val'', ''center'')] None []]]]]"

definition plainParagraph :: XMLElement where
  "plainParagraph =
     XMLElement ''w:p'' [] None
       [XMLElement ''w:r'' [] None [XMLElement ''w:t'' [] (Some ''x'') []]]"

definition emptyPropsParagraph :: XMLElement where
  "emptyPropsParagraph =
     XMLElement ''w:p'' [] None
       [XMLElement ''w:pPr'' [] None [],
        XMLElement ''w:r'' [] None
          [XMLElement ''w:rPr'' [] None [], XMLElement ''w:t'' [] (Some ''x'') []]]"

text \<open>
  Runs with a reference to endnote 2, to footnote 7, to footnote 0, to footnote -1 and to a
  footnote whose id is beyond the range of \<^verbatim>\<open>long\<close>; an archive whose body is one
  paragraph with the reference to footnote 0.
\<close>

definition endnoteRun :: XMLElement where
  "endnoteRun = XMLElement ''w:r'' [] None
     [XMLElement ''w:endnoteReference'' [(''w:id'', ''2'')] None []]"

definition footnoteRun :: XMLElement where
  "footnoteRun = XMLElement ''w:r'' [] None
     [XMLElement ''w:rPr'' [] None [XMLElement ''w:b'' [] None []],
      XMLElement ''w:footnoteReference'' [(''w:id'', ''7'')] None []]"


definition hugeNoteRun :: XMLElement where
  "hugeNoteRun = XMLElement ''w:r'' [] None
     [XMLElement ''w:footnoteReference'' [(''w:id'', ''99999999999999999999'')] None []]"


definition negativeNoteRun :: XMLElement where
  "negativeNoteRun = XMLElement ''w:r'' [] None
     [XMLElement ''w:footnoteReference'' [(''w:id'', ''-1'')] None []]"

text \<open>
  An archive with two styles, a body paragraph that refers to footnote 1, and the
  footnotes; an archive whose styles.xml has the font size "abc".
\<close>

definition goodStylesXml :: XMLDocument where
  "goodStylesXml =
     [XMLElement ''w:styles'' [] None
       [XMLElement ''w:style'' [(''w:type'', ''paragraph''), (''w:styleId'', ''Normal'')] None
          [XMLElement ''w:rPr'' [] None
             [XMLElement ''w:sz'' [(''w:val'', ''24'')] None [],
              XMLElement ''w:color'' [(''w:val'', ''FF8000'')] None []],
           XMLElement ''w:pPr'' [] None
             [XMLElement ''w:spacing''
                [(''w:before'', ''240''), (''w:after'', ''120''), (''w:line'', ''360'')] None []]],
        XMLElement ''w:style'' [(''w:type'', ''character''), (''w:styleId'', ''Strong'')] None
          [XMLElement ''w:basedOn'' [(''w:val'', ''Normal'')] None [],
           XMLElement ''w:rPr'' [] None [XMLElement ''w:b'' [] None []]]]]"

definition goodArchive :: archive where
  "goodArchive =
     [(''word/styles.xml'', goodStylesXml),
      (''word/document.xml'',
        [XMLElement ''w:document'' [] None
          [XMLElement ''w:body'' [] None
            [XMLElement ''w:p'' [] None
               [XMLElement ''w:pPr'' [] None
                  [XMLElement ''w:ind'' [(''w:left'', ''720'')] None []],
                XMLElement ''w:r'' [] None
                  [XMLElement ''w:rPr'' [] None
                     [XMLElement ''w:rStyle'' [(''w:val'', ''Strong'')] None []],
                   XMLElement ''w:t'' [] (Some ''hi'') []],
                XMLElement ''w:r'' [] None
                  [XMLElement ''w:footnoteReference'' [(''w:id'', ''1'')] None []]]]]]),
      (''word/footnotes.xml'',
        [XMLElement ''w:footnotes'' [] None
          [XMLElement ''w:footnote'' [(''w:type'', ''separator''), (''w:id'', ''-1'')] None [],
           XMLElement ''w:footnote'' [(''w:id'', ''1'')] None
             [XMLElement ''w:p'' [] None
               [XMLElement ''w:r'' [] None [XMLElement ''w:t'' [] (Some ''note'') []]]]]])]"

definition badArchive :: archive where
  "badArchive =
     [(''word/styles.xml'',
        [XMLElement ''w:styles'' [] None
          [XMLElement ''w:style'' [(''w:type'', ''character''), (''w:styleId'', ''Big'')] None
             [XMLElement ''w:rPr'' [] None
                [XMLElement ''w:sz'' [(''w:val'', ''abc'')] None []]]]]),
      (''word/document.xml'',
        [XMLElement ''w:document'' [] None [XMLElement ''w:body'' [] None []]])]"

section \<open>Properties\<close>

subsection \<open>Outcomes\<close>

lemma bindR_Returns [simp]: "bindR (Returns x) f = f x"
  and bindR_Throws [simp]: "bindR (Throws e) f = Throws e"
  and bindR_Diverges [simp]: "bindR Diverges f = Diverges"
  by (simp_all add: bindR_def)

lemma bindR_eq_Returns: "(bindR m f = Returns y) = (\<exists>x. m = Returns x \<and> f x = Returns y)"
  by (cases m) simp_all

lemma returns_iff: "returns m = (\<exists>x. m = Returns x)"
  by (cases m) (simp_all add: returns_def)

text \<open>
  The result of \<^verbatim>\<open>atoi\<close> is an \<^verbatim>\<open>int\<close>; it is the value of the digits when that is one,
  and for digits beyond \<^verbatim>\<open>long\<close> it is the low 32 bits of the saturated \<^verbatim>\<open>long\<close>.
\<close>

lemma atoi_range: "- 2147483648 \<le> atoi v \<and> atoi v < 2147483648"
  unfolding atoi_def by simp

lemma atoi_in_range:
  "- 2147483648 \<le> strtol10 v \<Longrightarrow> strtol10 v < 2147483648 \<Longrightarrow> atoi v = strtol10 v"
  unfolding atoi_def by (simp add: mod_pos_pos_trivial)

lemma atoi_examples:
  "atoi ''  42x'' = 42" "atoi ''-1'' = - 1" "atoi ''abc'' = 0"
  "atoi ''2147483647'' = 2147483647" "atoi ''2147483648'' = - 2147483648"
  "atoi ''99999999999999999999'' = - 1" "atoi ''-99999999999999999999'' = 0"
  by code_simp+

lemma uint_noteId: "uint (word_of_int i :: 32 word) = i mod 2 ^ 32"
  by (simp add: uint_word_of_int take_bit_eq_mod)

lemma noteId_positive: "(0 < (word_of_int i :: 32 word)) = (i mod 2 ^ 32 \<noteq> 0)"
  by (metis uint_noteId word_gt_0 uint_0_iff)

subsection \<open>The style resolver\<close>

text \<open>
  A call that returns has followed a basedOn chain that ends: by the induction principle
  of the least fixed point, every approximation of the resolver has this property.
\<close>

lemma mergeStyleCached_chain_ends:
  assumes "mergeStyleCached stylesMap cache styleId = Some y"
  shows "chain_ends stylesMap cache styleId"
proof (rule mergeStyleCached.raw_induct
    [where P = "\<lambda>s c i y. chain_ends s c i", OF _ assms], goal_cases)
  case (1 f stylesMap cache styleId y)
  show ?case
  proof (cases "styleId = []")
    case True
    then show ?thesis by (simp add: chain_empty)
  next
    case ne: False
    show ?thesis
    proof (cases "cache styleId")
      case (Some hit)
      then show ?thesis by (rule chain_cached)
    next
      case cn: None
      show ?thesis
      proof (cases "stylesMap styleId")
        case None
        then show ?thesis by (rule chain_unknown)
      next
        case (Some cur)
        show ?thesis
        proof (cases "basedOn cur = []")
          case True
          with Some show ?thesis by (metis chain_step chain_empty)
        next
          case False
          with 1(2) ne cn Some obtain z where "f stylesMap cache (basedOn cur) = Some z"
            by (auto simp: bind_eq_Some_conv)
          then have "chain_ends stylesMap cache (basedOn cur)" by (rule 1(1))
          with Some show ?thesis by (rule chain_step)
        qed
      qed
    qed
  qed
qed

text \<open>Conversely the resolver returns along a chain that ends.\<close>

lemma chain_ends_mergeStyleCached:
  "chain_ends stylesMap cache styleId \<Longrightarrow> \<exists>y. mergeStyleCached stylesMap cache styleId = Some y"
proof (induction rule: chain_ends.induct)
  case chain_empty
  show ?case by (subst mergeStyleCached.simps) simp
next
  case (chain_cached styleId hit)
  then show ?case by (subst mergeStyleCached.simps) simp
next
  case (chain_unknown styleId)
  then show ?case by (subst mergeStyleCached.simps) (simp split: option.split)
next
  case (chain_step styleId cur)
  then obtain y where y: "mergeStyleCached stylesMap cache (basedOn cur) = Some y" by blast
  show ?case
    by (subst mergeStyleCached.simps)
       (simp add: chain_step.hyps(1) y split: option.split prod.split)
qed

lemma cyclic_chain_never_ends:
  assumes "chain_ends stylesMap cache styleId"
    and "stylesMap = cyclicStyles" and "cache = Map.empty"
    and "styleId = ''A'' \<or> styleId = ''B''"
  shows False
  using assms
proof (induction rule: chain_ends.induct)
  case chain_empty
  then show ?case by simp
next
  case (chain_cached styleId hit)
  then show ?case by simp
next
  case (chain_unknown styleId)
  then show ?case by (auto simp: cyclicStyles_def)
next
  case (chain_step styleId cur)
  then have "basedOn cur = ''A'' \<or> basedOn cur = ''B''"
    by (auto simp: cyclicStyles_def split: if_splits)
  with chain_step show ?case by simp
qed

text \<open>
  Claim C1, as the code has it. \<^verbatim>\<open>mergeStyleCached\<close> returns a Style exactly when the
  basedOn chain that starts at the style id reaches the empty id, an id of the cache or an
  id that the map does not have. The cache is written only after the recursive call has
  returned, so an invocation of an id from within its own recursion finds no entry.
\<close>

theorem mergeStyleCached_returns_iff_chain_ends:
  "(\<exists>y. mergeStyleCached stylesMap cache styleId = Some y) \<longleftrightarrow> chain_ends stylesMap cache styleId"
proof
  assume "\<exists>y. mergeStyleCached stylesMap cache styleId = Some y"
  then show "chain_ends stylesMap cache styleId"
    by (auto dest: mergeStyleCached_chain_ends)
next
  assume "chain_ends stylesMap cache styleId"
  then show "\<exists>y. mergeStyleCached stylesMap cache styleId = Some y"
    by (rule chain_ends_mergeStyleCached)
qed

theorem mergeStyleCached_returns_witness:
  "chain_ends chainStyles Map.empty ''A''
   \<and> (\<exists>y. mergeStyleCached chainStyles Map.empty ''A'' = Some y)"
proof -
  have b: "chain_ends chainStyles Map.empty ''B''"
    by (rule chain_step [where cur = "defaultStyle\<lparr>Style.bold := True\<rparr>"])
       (simp_all add: chainStyles_def defaultStyle_def chain_empty)
  have a: "chainStyles ''A'' = Some (defaultStyle\<lparr>basedOn := ''B'', Style.italic := True\<rparr>)"
    by (simp add: chainStyles_def)
  have "chain_ends chainStyles Map.empty ''A''"
    using chain_step [of chainStyles "''A''" _ Map.empty, OF a] b by simp
  with mergeStyleCached_returns_iff_chain_ends [of chainStyles Map.empty "''A''"]
  show ?thesis by simp
qed

text \<open>
  On the map in which A is based on B and B on A, with an empty cache, the call for A does
  not return.
\<close>

theorem mergeStyleCached_cycle_diverges:
  "mergeStyleCached cyclicStyles Map.empty ''A'' = None"
proof (cases "mergeStyleCached cyclicStyles Map.empty ''A''")
  case None
  then show ?thesis .
next
  case (Some y)
  then have "chain_ends cyclicStyles Map.empty ''A''" by (rule mergeStyleCached_chain_ends)
  then have False by (rule cyclic_chain_never_ends) simp_all
  then show ?thesis ..
qed

text \<open>
  The numeric fields of the current style replace the inherited ones only when they are
  strictly positive.
\<close>

lemma overlayStyle_numeric:
  "Style.fontSize (overlayStyle cur result) =
     (if fgt0 (Style.fontSize cur) then Style.fontSize cur else Style.fontSize result)"
  "Style.lineSpacing (overlayStyle cur result) =
     (if fgt0 (Style.lineSpacing cur) then Style.lineSpacing cur else Style.lineSpacing result)"
  "Style.spaceBefore (overlayStyle cur result) =
     (if fgt0 (Style.spaceBefore cur) then Style.spaceBefore cur else Style.spaceBefore result)"
  "Style.spaceAfter (overlayStyle cur result) =
     (if fgt0 (Style.spaceAfter cur) then Style.spaceAfter cur else Style.spaceAfter result)"
  "Style.indentLeft (overlayStyle cur result) =
     (if fgt0 (Style.indentLeft cur) then Style.indentLeft cur else Style.indentLeft result)"
  "Style.indentRight (overlayStyle cur result) =
     (if fgt0 (Style.indentRight cur) then Style.indentRight cur else Style.indentRight result)"
  "Style.indentFirstLine (overlayStyle cur result) =
     (if fgt0 (Style.indentFirstLine cur) then Style.indentFirstLine cur
      else Style.indentFirstLine result)"
  "Style.level (overlayStyle cur result) =
     (if 0 < Style.level cur then Style.level cur else Style.level result)"
  by (simp_all add: overlayStyle_def)

text \<open>
  Claim C4, at the input on which the code departs from it. Style B has line spacing
  360 / 240 and style A, based on B, has no \<^verbatim>\<open>w:spacing\<close>. A Style is constructed with
  \<^verbatim>\<open>lineSpacing = 1.0f\<close>, which is strictly positive, so the resolved A has line spacing 1
  and not the 3/2 of B.
\<close>

theorem unset_lineSpacing_overrides_inherited:
  "bindR (parseStyles stof_decimal spacingStylesXml) (\<lambda>st.
   bindR (resolveR st Map.empty ''A'') (\<lambda>(a, cache).
   bindR (resolveR st Map.empty ''B'') (\<lambda>(b, cache).
   Returns (Style.lineSpacing a, Style.lineSpacing b))))
   = Returns (Finite 1, Finite (3 / 2))"
  by code_simp

subsection \<open>The run coalescer\<close>

lemma mergeLoop_text:
  "merged \<noteq> [] \<Longrightarrow>
   concat (map text' (mergeLoop merged rest)) = concat (map text' merged) @ concat (map text' rest)"
proof (induction rest arbitrary: merged)
  case Nil
  then show ?case by simp
next
  case (Cons r rest)
  from Cons.prems have m: "merged = butlast merged @ [last merged]" by simp
  have "concat (map text' merged) = concat (map text' (butlast merged)) @ text' (last merged)"
    by (subst m) simp
  then show ?case using Cons.IH by simp
qed

text \<open>
  Claim C9. The concatenation of the texts of the runs, in order, is the same before and
  after \<^verbatim>\<open>mergeAdjacentRuns\<close>.
\<close>

theorem mergeAdjacentRuns_preserves_text:
  "concat (map text' (mergeAdjacentRuns rs)) = concat (map text' rs)"
proof (cases "length rs < 2")
  case True
  then show ?thesis by (simp add: mergeAdjacentRuns_def)
next
  case False
  then have "rs = rs ! 0 # drop 1 rs" by (cases rs) auto
  then have "concat (map text' rs) = concat (map text' [rs ! 0]) @ concat (map text' (drop 1 rs))"
    by (metis append_Cons append_Nil concat_append map_append)
  with False show ?thesis by (simp add: mergeAdjacentRuns_def mergeLoop_text)
qed

text \<open>The fingerprint of a run does not depend on its \<^verbatim>\<open>noteId\<close>.\<close>

lemma sameRunStyle_ignores_noteId:
  "sameRunStyle (a\<lparr>noteId := n\<rparr>) b = sameRunStyle a b"
  "sameRunStyle a (b\<lparr>noteId := n\<rparr>) = sameRunStyle a b"
  by (simp_all add: sameRunStyle_def)

text \<open>
  Claim C3, at the input on which the code departs from it. \<^verbatim>\<open>sameRunStyle\<close> does not
  look at \<^verbatim>\<open>noteId\<close>: the run of the reference to footnote 1 has the fingerprint of the
  plain run before it, and the paragraph that \<^verbatim>\<open>readParagraph\<close> returns has the single run
  "hello" with \<^verbatim>\<open>noteId\<close> 0.
\<close>

theorem note_reference_run_is_merged:
  "valueOf (readParagraph stof_decimal noteParagraph Map.empty Map.empty)
   = Returns (defaultParagraph\<lparr>runs := [defaultRun\<lparr>text' := ''hello''\<rparr>]\<rparr>)"
  by code_simp

subsection \<open>The paragraph reader\<close>

text \<open>
  Claim C5, at the input on which the code departs from it. Style Normal is centred. The
  paragraph without \<^verbatim>\<open>w:pPr\<close> keeps the justification Left of a default Paragraph, while
  the paragraph with an empty \<^verbatim>\<open>w:pPr\<close> is seeded from Normal and is centred.
\<close>

theorem paragraph_without_pPr_is_not_seeded:
  "bindR (parseStyles stof_decimal normalStylesXml) (\<lambda>st.
   bindR (readParagraph stof_decimal plainParagraph st Map.empty) (\<lambda>(para, cache).
   bindR (readParagraph stof_decimal emptyPropsParagraph st Map.empty) (\<lambda>(para', cache).
   bindR (resolveR st Map.empty ''Normal'') (\<lambda>(normal, cache).
   Returns (Paragraph.justification para, Paragraph.justification para',
            Style.justification normal)))))
   = Returns (Left, Center, Center)"
  by code_simp

text \<open>
  Claim C6, at the input on which the code departs from it. Style Normal is bold. The run
  without \<^verbatim>\<open>w:rPr\<close> is not bold, while the run with an empty \<^verbatim>\<open>w:rPr\<close> takes the bold of
  the paragraph style.
\<close>

theorem run_without_rPr_gets_no_style:
  "bindR (parseStyles stof_decimal normalStylesXml) (\<lambda>st.
   bindR (readParagraph stof_decimal plainParagraph st Map.empty) (\<lambda>(para, cache).
   bindR (readParagraph stof_decimal emptyPropsParagraph st Map.empty) (\<lambda>(para', cache).
   bindR (resolveR st Map.empty ''Normal'') (\<lambda>(normal, cache).
   Returns (map Run.bold (runs para), map Run.bold (runs para'), Style.bold normal)))))
   = Returns ([False], [True], True)"
  by code_simp

lemma readRun_noteId:
  assumes "readRun stof stylesMap pStyleId r cache = Returns (run, cache')"
  shows "noteId run
         = (case footnoteReference r of None \<Rightarrow> 0 | Some (fr, v) \<Rightarrow> word_of_int (atoi v))"
  using assms
  by (auto simp: readRun_def bindR_eq_Returns defaultRun_def split: option.splits prod.splits)

lemma readRun_style:
  assumes "readRun stof stylesMap pStyleId r cache = Returns (run, cache')"
  shows "Run.style run = []"
  using assms
  by (auto simp: readRun_def bindR_eq_Returns defaultRun_def split: option.splits prod.splits)

text \<open>
  Claim C7, as the code has it. For a run element whose first \<^verbatim>\<open>w:footnoteReference\<close>
  child carries a \<^verbatim>\<open>w:id\<close>, the reader pushes a default Run whose \<^verbatim>\<open>noteId\<close> is the
  \<^verbatim>\<open>int\<close> that \<^verbatim>\<open>atoi\<close> returns for the attribute, taken modulo \<open>2 ^ 32\<close>, and whose text is
  the text of the reference element, empty when it has none; nothing else of the run
  element is read, and the cache is not touched. There is no such case for
  \<^verbatim>\<open>w:endnoteReference\<close>.
\<close>

theorem footnote_reference_run:
  assumes "FirstChildElement r ''w:footnoteReference'' = Some fr"
    and "Attribute fr ''w:id'' = Some v"
  shows "readRun stof stylesMap pStyleId r cache
         = Returns (defaultRun\<lparr>noteId := word_of_int (atoi v),
                               text' := (case GetText fr of None \<Rightarrow> [] | Some t \<Rightarrow> t)\<rparr>, cache)
         \<and> uint (word_of_int (atoi v) :: 32 word) = atoi v mod 2 ^ 32
         \<and> - 2147483648 \<le> atoi v \<and> atoi v < 2147483648"
  using assms
  by (simp add: readRun_def footnoteReference_def attrOr_def uint_noteId atoi_range)

theorem footnote_reference_run_witness:
  "FirstChildElement footnoteRun ''w:footnoteReference''
     = Some (XMLElement ''w:footnoteReference'' [(''w:id'', ''7'')] None [])
   \<and> readRun stof_decimal chainStyles ''Normal'' footnoteRun Map.empty
       = Returns (defaultRun\<lparr>noteId := 7\<rparr>, Map.empty)"
proof -
  have fr: "FirstChildElement footnoteRun ''w:footnoteReference''
            = Some (XMLElement ''w:footnoteReference'' [(''w:id'', ''7'')] None [])"
    by (simp add: FirstChildElement_def footnoteRun_def)
  have v: "Attribute (XMLElement ''w:footnoteReference'' [(''w:id'', ''7'')] None []) ''w:id''
           = Some ''7''"
    by (simp add: Attribute_def)
  have "atoi ''7'' = 7" by code_simp
  with footnote_reference_run [OF fr v, of stof_decimal chainStyles "''Normal''" Map.empty] fr
  show ?thesis by (simp add: defaultRun_def)
qed

text \<open>
  A run element with a reference to endnote 2 is read as an ordinary run: its \<^verbatim>\<open>noteId\<close>
  is 0.
\<close>

theorem endnote_reference_is_ignored:
  "valueOf (readRun stof_decimal Map.empty ''Normal'' endnoteRun Map.empty) = Returns defaultRun"
  by code_simp

text \<open>
  The Run pushed for a footnote reference has the \<^verbatim>\<open>noteId\<close> \<^verbatim>\<open>atoi(w:id)\<close> modulo
  \<open>2 ^ 32\<close>, which is positive exactly when that remainder is not 0; every other Run that
  the reader pushes has \<^verbatim>\<open>noteId\<close> 0.
\<close>

lemma noteId_of_pushed_run:
  assumes "readRun stof stylesMap pStyleId r cache = Returns (run, cache')"
  shows "(\<forall>fr v. footnoteReference r = Some (fr, v) \<longrightarrow>
            uint (noteId run) = atoi v mod 2 ^ 32
            \<and> (0 < noteId run \<longleftrightarrow> atoi v mod 2 ^ 32 \<noteq> 0))
         \<and> (footnoteReference r = None \<longrightarrow> noteId run = 0)"
  using readRun_noteId [OF assms] by (auto simp: uint_noteId noteId_positive)

text \<open>The ids -1 and 99999999999999999999 both give the \<^verbatim>\<open>noteId\<close> \<open>2 ^ 32 - 1\<close>.\<close>

lemma noteId_of_out_of_range_id:
  "valueOf (readRun stof_decimal Map.empty ''Normal'' negativeNoteRun Map.empty)
   = Returns (defaultRun\<lparr>noteId := 4294967295\<rparr>)"
  "valueOf (readRun stof_decimal Map.empty ''Normal'' hugeNoteRun Map.empty)
   = Returns (defaultRun\<lparr>noteId := 4294967295\<rparr>)"
  by code_simp+

subsection \<open>The style id of a run\<close>

text \<open>The coalescer keeps the style ids: it only extends the text of a run it has.\<close>

lemma mergeLoop_style:
  "\<forall>r \<in> set merged. Run.style r = [] \<Longrightarrow> \<forall>r \<in> set rest. Run.style r = [] \<Longrightarrow>
   merged \<noteq> [] \<Longrightarrow> \<forall>r \<in> set (mergeLoop merged rest). Run.style r = []"
proof (induction rest arbitrary: merged)
  case Nil then show ?case by simp
next
  case (Cons r rest)
  have l: "Run.style (last merged) = []" using Cons.prems by simp
  have b: "\<forall>r \<in> set (butlast merged). Run.style r = []"
    using Cons.prems(1) by (auto dest: in_set_butlastD)
  show ?case
  proof (cases "sameRunStyle (last merged) r")
    case True
    have "\<forall>x \<in> set (mergeLoop
                     (butlast merged @ [(last merged)\<lparr>text' := text' (last merged) @ text' r\<rparr>])
                     rest). Run.style x = []"
      using Cons.prems(2) l b by (intro Cons.IH) auto
    with True show ?thesis by simp
  next
    case False
    have "\<forall>x \<in> set (mergeLoop (merged @ [r]) rest). Run.style x = []"
      using Cons.prems by (intro Cons.IH) auto
    with False show ?thesis by simp
  qed
qed

lemma mergeAdjacentRuns_style:
  assumes "\<forall>r \<in> set rs. Run.style r = []"
  shows "\<forall>r \<in> set (mergeAdjacentRuns rs). Run.style r = []"
proof (cases "length rs < 2")
  case True with assms show ?thesis by (simp add: mergeAdjacentRuns_def)
next
  case False
  then obtain a rest where rs: "rs = a # rest" by (cases rs) auto
  have "\<forall>r \<in> set (mergeLoop [a] rest). Run.style r = []"
    using assms rs by (intro mergeLoop_style) auto
  with False rs show ?thesis by (simp add: mergeAdjacentRuns_def)
qed

lemma readRuns_style:
  "readRuns stof stylesMap pStyleId rs cache = Returns (runs', cache') \<Longrightarrow>
   \<forall>r \<in> set runs'. Run.style r = []"
proof (induction rs arbitrary: cache runs' cache')
  case Nil then show ?case by simp
next
  case (Cons r rs)
  then show ?case
    by (auto simp: bindR_eq_Returns dest!: readRun_style)
qed

lemma readParagraph_style:
  assumes "readParagraph stof p stylesMap cache = Returns (para, cache')"
  shows "\<forall>r \<in> set (runs para). Run.style r = []"
proof -
  from assms obtain para0 rs pid c2 where
    r: "readRuns stof stylesMap pid (ChildElements p ''w:r'') c2 = Returns (rs, cache')"
    and p: "para = para0\<lparr>runs := mergeAdjacentRuns rs\<rparr>"
    unfolding readParagraph_def by (auto simp: bindR_eq_Returns)
  from readRuns_style [OF r] have "\<forall>r \<in> set (mergeAdjacentRuns rs). Run.style r = []"
    by (rule mergeAdjacentRuns_style)
  with p show ?thesis by simp
qed

lemma readParagraphs_style:
  "readParagraphs stof ps stylesMap cache = Returns (paras, cache') \<Longrightarrow>
   \<forall>para \<in> set paras. \<forall>r \<in> set (runs para). Run.style r = []"
proof (induction ps arbitrary: cache paras cache')
  case Nil then show ?case by simp
next
  case (Cons p ps)
  then show ?case
    by (auto simp: bindR_eq_Returns dest!: readParagraph_style)
qed

lemma notesUnstyled_upd:
  "notesUnstyled m \<Longrightarrow> \<forall>para \<in> set paras. \<forall>r \<in> set (runs para). Run.style r = [] \<Longrightarrow>
   notesUnstyled (m(k \<mapsto> \<lparr>id' = k, Note.paragraphs = paras\<rparr>))"
  unfolding notesUnstyled_def
  by (auto simp: ran_def split: if_splits)

lemma parseNotesLoop_style:
  "parseNotesLoop stof stylesMap fns m cache = Returns (m', cache') \<Longrightarrow> notesUnstyled m \<Longrightarrow>
   notesUnstyled m'"
proof (induction fns arbitrary: m cache)
  case Nil then show ?case by simp
next
  case (Cons fn fns)
  show ?case
  proof (cases "Attribute fn ''w:id''")
    case None
    with Cons show ?thesis by simp
  next
    case (Some idAttr)
    show ?thesis
    proof (cases "Attribute fn ''w:type'' = Some ''separator''
                  \<or> Attribute fn ''w:type'' = Some ''continuationSeparator''")
      case True
      with Some Cons.prems
      have "parseNotesLoop stof stylesMap fns m cache = Returns (m', cache')" by auto
      then show ?thesis using Cons.prems(2) by (rule Cons.IH)
    next
      case False
      with Some Cons.prems(1) obtain paras cache1 where
        p: "readParagraphs stof (ChildElements fn ''w:p'') stylesMap cache = Returns (paras, cache1)"
        and l: "parseNotesLoop stof stylesMap fns
                  (m(atoi idAttr \<mapsto> \<lparr>id' = atoi idAttr, Note.paragraphs = paras\<rparr>)) cache1
                = Returns (m', cache')"
        by (auto simp: bindR_eq_Returns)
      from l show ?thesis
        by (rule Cons.IH) (rule notesUnstyled_upd [OF Cons.prems(2) readParagraphs_style [OF p]])
    qed
  qed
qed

lemma notesUnstyled_empty: "notesUnstyled Map.empty" by (simp add: notesUnstyled_def)

lemma parseNotes_style:
  "parseFootnotes stof xml stylesMap cache = Returns (m, cache') \<Longrightarrow> notesUnstyled m"
  "parseEndnotes stof xml stylesMap cache = Returns (m, cache') \<Longrightarrow> notesUnstyled m"
  by (auto simp: parseFootnotes_def parseEndnotes_def notesUnstyled_empty
      split: option.splits dest: parseNotesLoop_style [OF _ notesUnstyled_empty])

lemma parseMainDocument_style:
  "parseMainDocument stof xml stylesMap cache = Returns (paras, cache') \<Longrightarrow>
   \<forall>para \<in> set paras. \<forall>r \<in> set (runs para). Run.style r = []"
  by (auto simp: parseMainDocument_def split: option.splits dest: readParagraphs_style)

lemma parseAll_style:
  assumes "parseAll stof fileData = Returns doc"
  shows "(\<forall>para \<in> set (Document.paragraphs doc). \<forall>r \<in> set (runs para). Run.style r = [])
       \<and> notesUnstyled (footnotes doc) \<and> notesUnstyled (endnotes doc)"
proof -
  from assms obtain st fns c1 ens c2 paras c3 where
    f: "parseFootnotes stof (fileOf fileData ''word/footnotes.xml'') st Map.empty = Returns (fns, c1)"
    and e: "parseEndnotes stof (fileOf fileData ''word/endnotes.xml'') st c1 = Returns (ens, c2)"
    and p: "parseMainDocument stof (fileOf fileData ''word/document.xml'') st c2 = Returns (paras, c3)"
    and d: "doc = \<lparr>Document.paragraphs = paras, styles = st, footnotes = fns, endnotes = ens\<rparr>"
    unfolding parseAll_def bindR_eq_Returns by (auto simp: bindR_eq_Returns)
  from parseNotes_style(1) [OF f] parseNotes_style(2) [OF e] parseMainDocument_style [OF p] d
  show ?thesis by simp
qed

lemma emptyDocument_style:
  "(\<forall>para \<in> set (Document.paragraphs emptyDocument). \<forall>r \<in> set (runs para). Run.style r = [])
   \<and> notesUnstyled (footnotes emptyDocument) \<and> notesUnstyled (endnotes emptyDocument)"
  by (simp add: emptyDocument_def notesUnstyled_empty)

text \<open>
  Claim C10. In every Document that an entry point returns, every run of every paragraph,
  in the body, in the footnotes and in the endnotes, has the empty string as its style id:
  no assignment of \<^verbatim>\<open>readParagraph\<close> writes \<^verbatim>\<open>run.style\<close>, and the coalescer keeps the
  style ids of the runs it is given. Any two runs of a paragraph therefore agree on the
  style id that \<^verbatim>\<open>sameRunStyle\<close> compares.
\<close>

theorem run_style_is_empty:
  assumes "readDocument stof zipFile = Returns doc
           \<or> readDocumentFromMemory stof zipFile = Returns doc"
  shows "(\<forall>para \<in> set (Document.paragraphs doc). \<forall>r \<in> set (runs para). Run.style r = [])
       \<and> (\<forall>n \<in> ran (footnotes doc). \<forall>para \<in> set (Note.paragraphs n).
             \<forall>r \<in> set (runs para). Run.style r = [])
       \<and> (\<forall>n \<in> ran (endnotes doc). \<forall>para \<in> set (Note.paragraphs n).
             \<forall>r \<in> set (runs para). Run.style r = [])
       \<and> (\<forall>para \<in> set (Document.paragraphs doc). \<forall>a \<in> set (runs para).
             \<forall>b \<in> set (runs para). Run.style a = Run.style b)"
proof -
  from assms have "parseAll stof (readMultipleFilesFromZIP zipFile filesToRead) = Returns doc
                   \<or> doc = emptyDocument"
    by (auto simp: readDocument_def readDocumentFromMemory_def split: if_splits)
  then have "(\<forall>para \<in> set (Document.paragraphs doc). \<forall>r \<in> set (runs para). Run.style r = [])
       \<and> notesUnstyled (footnotes doc) \<and> notesUnstyled (endnotes doc)"
    using parseAll_style emptyDocument_style by blast
  then show ?thesis unfolding notesUnstyled_def by simp
qed

theorem run_style_is_empty_witness:
  "\<exists>doc. readDocument stof_decimal (Some goodArchive) = Returns doc
     \<and> (\<forall>para \<in> set (Document.paragraphs doc). \<forall>r \<in> set (runs para). Run.style r = [])
     \<and> (\<forall>n \<in> ran (footnotes doc). \<forall>para \<in> set (Note.paragraphs n).
           \<forall>r \<in> set (runs para). Run.style r = [])"
proof -
  have "returns (readDocument stof_decimal (Some goodArchive))" by code_simp
  then obtain doc where d: "readDocument stof_decimal (Some goodArchive) = Returns doc"
    by (auto simp: returns_iff)
  from run_style_is_empty [of stof_decimal "Some goodArchive" doc] d show ?thesis by blast
qed

subsection \<open>When the entry points return\<close>

lemma returns_bindR:
  "returns m \<Longrightarrow> (\<And>x. m = Returns x \<Longrightarrow> returns (f x)) \<Longrightarrow> returns (bindR m f)"
  by (cases m) (simp_all add: returns_def)

lemma returns_Returns [simp]: "returns (Returns x)"
  by (simp add: returns_def)

lemma numbersOk_child: "numbersOk stof e \<Longrightarrow> c \<in> set (Children e) \<Longrightarrow> numbersOk stof c"
  by (cases e) simp

lemma FirstChildElement_SomeD:
  "FirstChildElement e n = Some c \<Longrightarrow> c \<in> set (Children e) \<and> Name c = n"
  by (auto simp: FirstChildElement_def find_Some_iff)

lemma ChildElements_D:
  "c \<in> set (ChildElements e n) \<Longrightarrow> c \<in> set (Children e) \<and> Name c = n"
  by (simp add: ChildElements_def)

lemma numbersOk_float:
  "numbersOk stof e \<Longrightarrow> Attribute e k = Some v \<Longrightarrow> (Name e, k) \<in> set floatAttributes \<Longrightarrow>
   returns (stof v)"
  by (cases e) (auto simp: Attribute_def dest!: map_of_SomeD)

lemma numbersOk_color:
  "numbersOk stof e \<Longrightarrow> Attribute e k = Some v \<Longrightarrow> (Name e, k) \<in> set colorAttributes \<Longrightarrow>
   returns (Color_hex v)"
  by (cases e) (auto simp: Attribute_def dest!: map_of_SomeD)

lemma readFloat_attr_returns:
  "numbersOk stof e \<Longrightarrow> (Name e, k) \<in> set floatAttributes \<Longrightarrow>
   returns (readFloat stof (Attribute e k) d keep)"
  by (auto simp: readFloat_def returns_iff bindR_eq_Returns split: option.split
        dest: numbersOk_float)

lemma readFloat_child_returns:
  assumes "numbersOk stof e" and "(child, k) \<in> set floatAttributes"
  shows "returns (readFloat stof (childAttr e child k) d keep)"
proof (cases "FirstChildElement e child")
  case None then show ?thesis by (simp add: childAttr_def readFloat_def)
next
  case (Some c)
  then have "numbersOk stof c" and "Name c = child"
    using assms(1) by (auto dest: FirstChildElement_SomeD numbersOk_child)
  with assms(2) Some show ?thesis by (simp add: childAttr_def readFloat_attr_returns)
qed

lemma readColor_child_returns:
  assumes "numbersOk stof e" and "(child, k) \<in> set colorAttributes"
  shows "returns (readColor (childAttr e child k) keep)"
proof (cases "FirstChildElement e child")
  case None then show ?thesis by (simp add: childAttr_def readColor_def)
next
  case (Some c)
  then have "numbersOk stof c" and "Name c = child"
    using assms(1) by (auto dest: FirstChildElement_SomeD numbersOk_child)
  with assms(2) Some show ?thesis
    by (auto simp: childAttr_def readColor_def split: option.split dest: numbersOk_color)
qed

lemma parseTab_returns:
  "numbersOk stof tab \<Longrightarrow> Name tab = ''w:tab'' \<Longrightarrow> returns (parseTab stof tab)"
  unfolding parseTab_def
  by (intro returns_bindR readFloat_attr_returns) (simp_all add: floatAttributes_def)

lemma parseTabs_returns:
  "\<forall>t \<in> set ts. numbersOk stof t \<and> Name t = ''w:tab'' \<Longrightarrow> returns (parseTabs stof ts)"
  by (induction ts) (auto intro!: returns_bindR parseTab_returns)

lemma tabs_returns:
  assumes "numbersOk stof pPr"
  shows "returns (case FirstChildElement pPr ''w:tabs'' of None \<Rightarrow> Returns keep
                  | Some tabsEl \<Rightarrow> parseTabs stof (ChildElements tabsEl ''w:tab''))"
proof (cases "FirstChildElement pPr ''w:tabs''")
  case None then show ?thesis by simp
next
  case (Some tabsEl)
  then have "numbersOk stof tabsEl"
    using assms by (auto dest: FirstChildElement_SomeD numbersOk_child)
  then have "\<forall>t \<in> set (ChildElements tabsEl ''w:tab''). numbersOk stof t \<and> Name t = ''w:tab''"
    by (auto dest: ChildElements_D numbersOk_child)
  with Some show ?thesis by (simp add: parseTabs_returns)
qed

lemma parseStyle_rPr_returns: "numbersOk stof rPr \<Longrightarrow> returns (parseStyle_rPr stof rPr st)"
  unfolding parseStyle_rPr_def
  by (intro returns_bindR readFloat_child_returns readColor_child_returns returns_Returns)
     (simp_all add: floatAttributes_def colorAttributes_def)

lemma parseStyle_pPr_returns: "numbersOk stof pPr \<Longrightarrow> returns (parseStyle_pPr stof pPr st)"
  unfolding parseStyle_pPr_def
  by (intro returns_bindR readFloat_child_returns tabs_returns returns_Returns)
     (simp_all add: floatAttributes_def)

lemma parseStyle_returns:
  assumes "numbersOk stof s" shows "returns (parseStyle stof s)"
proof -
  have r: "\<And>st. returns (case FirstChildElement s ''w:rPr'' of None \<Rightarrow> Returns st
            | Some rPr \<Rightarrow> parseStyle_rPr stof rPr st)"
    using assms
    by (auto split: option.split intro!: parseStyle_rPr_returns
          dest: FirstChildElement_SomeD numbersOk_child)
  have p: "\<And>st. returns (case FirstChildElement s ''w:pPr'' of None \<Rightarrow> Returns st
            | Some pPr \<Rightarrow> parseStyle_pPr stof pPr st)"
    using assms
    by (auto split: option.split intro!: parseStyle_pPr_returns
          dest: FirstChildElement_SomeD numbersOk_child)
  show ?thesis unfolding parseStyle_def by (intro returns_bindR r p)
qed

lemma parseStylesLoop_returns:
  "\<forall>s \<in> set ss. numbersOk stof s \<Longrightarrow> returns (parseStylesLoop stof ss m)"
  by (induction ss arbitrary: m)
     (auto split: option.split intro!: returns_bindR parseStyle_returns)

lemma parseStyles_returns:
  assumes "\<forall>e \<in> set xml. numbersOk stof e" shows "returns (parseStyles stof xml)"
proof (cases "RootElement xml ''w:styles''")
  case None then show ?thesis by (simp add: parseStyles_def)
next
  case (Some rootEl)
  then have "rootEl \<in> set xml" by (auto simp: RootElement_def find_Some_iff)
  with assms have "\<forall>s \<in> set (ChildElements rootEl ''w:style''). numbersOk stof s"
    by (auto dest: ChildElements_D numbersOk_child)
  with Some show ?thesis by (simp add: parseStyles_def parseStylesLoop_returns)
qed

lemma chain_ends_any_cache:
  assumes "chain_ends stylesMap Map.empty styleId"
  shows "chain_ends stylesMap cache styleId"
  using assms
proof (induction rule: chain_ends.induct)
  case chain_empty show ?case by (rule chain_ends.chain_empty)
next
  case (chain_cached styleId hit) then show ?case by simp
next
  case (chain_unknown styleId) then show ?case by (rule chain_ends.chain_unknown)
next
  case (chain_step styleId cur) then show ?case by (auto intro: chain_ends.chain_step)
qed

lemma resolveR_returns:
  assumes "\<forall>i. chain_ends stylesMap Map.empty i"
  shows "returns (resolveR stylesMap cache styleId)"
proof -
  from assms have "chain_ends stylesMap cache styleId" by (simp add: chain_ends_any_cache)
  then obtain y where "mergeStyleCached stylesMap cache styleId = Some y"
    by (auto dest: chain_ends_mergeStyleCached)
  then show ?thesis by (simp add: resolveR_def)
qed

lemma readRun_returns:
  assumes "numbersOk stof r" and "\<forall>i. chain_ends stylesMap Map.empty i"
  shows "returns (readRun stof stylesMap pStyleId r cache)"
proof (cases "footnoteReference r")
  case (Some a) then show ?thesis by (cases a) (simp add: readRun_def)
next
  case fn: None
  show ?thesis
  proof (cases "FirstChildElement r ''w:rPr''")
    case None with fn show ?thesis by (simp add: readRun_def)
  next
    case (Some rPr)
    then have ok: "numbersOk stof rPr"
      using assms(1) by (auto dest: FirstChildElement_SomeD numbersOk_child)
    show ?thesis
      unfolding readRun_def using fn Some
      by (auto split: prod.splits
            intro!: returns_bindR resolveR_returns assms(2) readColor_child_returns
              readFloat_child_returns ok
            simp: floatAttributes_def colorAttributes_def)
  qed
qed

lemma readRuns_returns:
  assumes "\<forall>i. chain_ends stylesMap Map.empty i"
  shows "\<forall>r \<in> set rs. numbersOk stof r \<Longrightarrow> returns (readRuns stof stylesMap pStyleId rs cache)"
  by (induction rs arbitrary: cache)
     (auto split: prod.splits intro!: returns_bindR readRun_returns assms)

lemma readParagraph_pPr_returns:
  assumes "numbersOk stof pPr" and "\<forall>i. chain_ends stylesMap Map.empty i"
  shows "returns (readParagraph_pPr stof stylesMap pPr pStyleId cache)"
  unfolding readParagraph_pPr_def
  by (auto split: prod.splits
        intro!: returns_bindR resolveR_returns assms readFloat_child_returns tabs_returns
        simp: floatAttributes_def)

lemma readParagraph_returns:
  assumes "numbersOk stof p" and "\<forall>i. chain_ends stylesMap Map.empty i"
  shows "returns (readParagraph stof p stylesMap cache)"
proof -
  have pPr: "returns (case FirstChildElement p ''w:pPr'' of
              None \<Rightarrow> Returns (defaultParagraph, cache)
            | Some pPr \<Rightarrow> readParagraph_pPr stof stylesMap pPr (pStyleIdOf p) cache)"
    using assms
    by (auto split: option.split intro!: readParagraph_pPr_returns
          dest: FirstChildElement_SomeD numbersOk_child)
  have rs: "\<forall>r \<in> set (ChildElements p ''w:r''). numbersOk stof r"
    using assms(1) by (auto dest: ChildElements_D numbersOk_child)
  show ?thesis
    unfolding readParagraph_def
    by (intro returns_bindR pPr)
       (auto split: prod.splits
          intro!: returns_bindR resolveR_returns readRuns_returns assms(2) rs)
qed

lemma readParagraphs_returns:
  assumes "\<forall>i. chain_ends stylesMap Map.empty i"
  shows "\<forall>p \<in> set ps. numbersOk stof p \<Longrightarrow> returns (readParagraphs stof ps stylesMap cache)"
  by (induction ps arbitrary: cache)
     (auto split: prod.splits intro!: returns_bindR readParagraph_returns assms)

lemma parseNotesLoop_returns:
  assumes "\<forall>i. chain_ends stylesMap Map.empty i"
  shows "\<forall>fn \<in> set fns. numbersOk stof fn \<Longrightarrow>
         returns (parseNotesLoop stof stylesMap fns m cache)"
proof (induction fns arbitrary: m cache)
  case Nil show ?case by simp
next
  case (Cons fn fns)
  then have "\<forall>p \<in> set (ChildElements fn ''w:p''). numbersOk stof p"
    by (auto dest: ChildElements_D numbersOk_child)
  then have "returns (readParagraphs stof (ChildElements fn ''w:p'') stylesMap cache)"
    by (rule readParagraphs_returns [OF assms])
  with Cons show ?case
    by (auto split: option.split prod.splits intro!: returns_bindR)
qed

lemma RootElement_SomeD: "RootElement xml n = Some e \<Longrightarrow> e \<in> set xml"
  by (auto simp: RootElement_def find_Some_iff)

lemma parseNotes_returns:
  assumes "\<forall>e \<in> set xml. numbersOk stof e" and "\<forall>i. chain_ends stylesMap Map.empty i"
  shows "returns (parseFootnotes stof xml stylesMap cache)"
    and "returns (parseEndnotes stof xml stylesMap cache)"
  using assms(1)
  by (auto simp: parseFootnotes_def parseEndnotes_def split: option.split
        intro!: parseNotesLoop_returns [OF assms(2)]
        dest!: RootElement_SomeD dest: ChildElements_D numbersOk_child)

lemma parseMainDocument_returns:
  assumes "\<forall>e \<in> set xml. numbersOk stof e" and "\<forall>i. chain_ends stylesMap Map.empty i"
  shows "returns (parseMainDocument stof xml stylesMap cache)"
proof (cases "RootElement xml ''w:document''")
  case None
  then show ?thesis by (simp add: parseMainDocument_def)
next
  case (Some rootEl)
  then have r: "numbersOk stof rootEl" using assms(1) by (auto dest: RootElement_SomeD)
  show ?thesis
  proof (cases "FirstChildElement rootEl ''w:body''")
    case None
    with Some show ?thesis by (simp add: parseMainDocument_def)
  next
    case body: (Some body)
    with r have "numbersOk stof body" by (auto dest: FirstChildElement_SomeD numbersOk_child)
    then have "\<forall>p \<in> set (ChildElements body ''w:p''). numbersOk stof p"
      by (auto dest: ChildElements_D numbersOk_child)
    then have "returns (readParagraphs stof (ChildElements body ''w:p'') stylesMap cache)"
      by (rule readParagraphs_returns [OF assms(2)])
    with Some body show ?thesis by (simp add: parseMainDocument_def)
  qed
qed

lemma parseAll_returns:
  assumes "\<forall>name. \<forall>e \<in> set (fileOf fileData name). numbersOk stof e"
    and "\<forall>st. parseStyles stof (fileOf fileData ''word/styles.xml'') = Returns st
           \<longrightarrow> (\<forall>i. chain_ends st Map.empty i)"
  shows "returns (parseAll stof fileData)"
  unfolding parseAll_def
  by (intro returns_bindR parseStyles_returns assms(1) [rule_format])
     (auto split: prod.splits
        intro!: returns_bindR parseNotes_returns parseMainDocument_returns
          assms(1) [rule_format] assms(2) [rule_format])

lemma thrown_iff: "(thrown m = Some e) = (m = Throws e)"
  by (cases m) (simp_all add: thrown_def)

lemma map_of_step:
  assumes "map_of (case find (\<lambda>name. fname = name) files of None \<Rightarrow> out
                   | Some name \<Rightarrow> AList.update name data out) n = Some d"
  shows "map_of out n = Some d \<or> d = data"
  using assms by (auto simp: update_conv' split: option.splits if_splits)

lemma map_of_readLoop:
  "map_of (foldl (\<lambda>out (fname, data).
                   case find (\<lambda>name. fname = name) files of
                     None \<Rightarrow> out
                   | Some name \<Rightarrow> AList.update name data out) out entries) n = Some d
   \<Longrightarrow> map_of out n = Some d \<or> d \<in> snd ` set entries"
proof (induction entries arbitrary: out)
  case Nil then show ?case by simp
next
  case (Cons a entries)
  obtain fname data where a: "a = (fname, data)" by (cases a)
  from Cons.prems
  have "map_of (case find (\<lambda>name. fname = name) files of None \<Rightarrow> out
                | Some name \<Rightarrow> AList.update name data out) n = Some d
        \<or> d \<in> snd ` set entries"
    unfolding a by (auto dest: Cons.IH)
  then show ?case unfolding a by (auto dest: map_of_step)
qed

lemma fileOf_numbersOk:
  assumes "\<forall>(name, doc) \<in> set entries. \<forall>e \<in> set doc. numbersOk stof e"
  shows "\<forall>e \<in> set (fileOf (readMultipleFilesFromZIP (Some entries) files) n). numbersOk stof e"
proof (cases "map_of (readMultipleFilesFromZIP (Some entries) files) n")
  case None then show ?thesis by (simp add: fileOf_def)
next
  case (Some d)
  then have "d \<in> snd ` set entries"
    unfolding readMultipleFilesFromZIP_def by (auto dest: map_of_readLoop)
  with assms have "\<forall>e \<in> set d. numbersOk stof e" by auto
  with Some show ?thesis by (simp add: fileOf_def)
qed

lemma parseAll_empty: "parseAll stof [] = Returns emptyDocument"
  by (simp add: parseAll_def fileOf_def parseStyles_def parseFootnotes_def parseEndnotes_def
        parseMainDocument_def RootElement_def emptyDocument_def)

text \<open>
  Claim C2, as the code has it. Both entry points return a Document for an archive in
  which \<^verbatim>\<open>std::stof\<close> accepts every attribute that is read as a number, the constructor
  of Color accepts every colour, and every basedOn chain of the parsed style map ends; and
  both return the empty Document when the archive cannot be opened. Nothing in the code
  catches the exception of a malformed number.
\<close>

theorem entry_points_return:
  assumes "\<forall>(name, doc) \<in> set entries. \<forall>e \<in> set doc. numbersOk stof e"
    and "\<forall>st. parseStyles stof
                (fileOf (readMultipleFilesFromZIP (Some entries) filesToRead) ''word/styles.xml'')
              = Returns st \<longrightarrow> (\<forall>i. chain_ends st Map.empty i)"
  shows "returns (readDocument stof (Some entries))
       \<and> returns (readDocumentFromMemory stof (Some entries))
       \<and> readDocument stof None = Returns emptyDocument
       \<and> readDocumentFromMemory stof None = Returns emptyDocument"
proof -
  have "returns (parseAll stof (readMultipleFilesFromZIP (Some entries) filesToRead))"
    by (rule parseAll_returns) (use assms fileOf_numbersOk in blast)+
  then show ?thesis
    by (simp add: readDocument_def readDocumentFromMemory_def parseAll_empty
          readMultipleFilesFromZIP_def)
qed

lemma parseStyle_rPr_basedOn:
  "parseStyle_rPr stof rPr st = Returns st' \<Longrightarrow> basedOn st' = basedOn st"
  by (auto simp: parseStyle_rPr_def bindR_eq_Returns split del: if_split)

lemma parseStyle_pPr_basedOn:
  "parseStyle_pPr stof pPr st = Returns st' \<Longrightarrow> basedOn st' = basedOn st"
  by (auto simp: parseStyle_pPr_def bindR_eq_Returns split del: if_split)

lemma parseStyle_basedOn:
  assumes "parseStyle stof s = Returns cur"
  shows "basedOn cur = attrOr (childAttr s ''w:basedOn'' ''w:val'') []"
  using assms unfolding parseStyle_def bindR_eq_Returns
  by (cases "FirstChildElement s ''w:rPr''"; cases "FirstChildElement s ''w:pPr''")
     (auto dest!: parseStyle_rPr_basedOn parseStyle_pPr_basedOn)

lemma parseStylesLoop_lookup:
  "parseStylesLoop stof ss m = Returns m' \<Longrightarrow> m' i = Some cur \<Longrightarrow>
   m i = Some cur
   \<or> (\<exists>s \<in> set ss. Attribute s ''w:styleId'' = Some i \<and> parseStyle stof s = Returns cur)"
proof (induction ss arbitrary: m)
  case Nil then show ?case by simp
next
  case (Cons s ss)
  show ?case
  proof (cases "Attribute s ''w:styleId''")
    case None
    with Cons show ?thesis by auto
  next
    case (Some sid)
    with Cons.prems(1) obtain st where st: "parseStyle stof s = Returns st"
      and l: "parseStylesLoop stof ss (if m sid = None then m(sid \<mapsto> st) else m) = Returns m'"
      by (auto simp: bindR_eq_Returns)
    from Cons.IH [OF l Cons.prems(2)] st Some show ?thesis
      by (auto split: if_splits)
  qed
qed

lemma parseStyles_lookup:
  assumes "parseStyles stof xml = Returns st" and "st i = Some cur"
  shows "\<exists>rootEl s. RootElement xml ''w:styles'' = Some rootEl
           \<and> s \<in> set (ChildElements rootEl ''w:style'')
           \<and> Attribute s ''w:styleId'' = Some i
           \<and> basedOn cur = attrOr (childAttr s ''w:basedOn'' ''w:val'') []"
proof (cases "RootElement xml ''w:styles''")
  case None
  with assms show ?thesis by (auto simp: parseStyles_def)
next
  case (Some rootEl)
  with assms(1) have "parseStylesLoop stof (ChildElements rootEl ''w:style'') Map.empty = Returns st"
    by (simp add: parseStyles_def)
  from parseStylesLoop_lookup [OF this assms(2)] Some show ?thesis
    by (auto dest: parseStyle_basedOn)
qed

lemma goodArchive_styles:
  "fileOf (readMultipleFilesFromZIP (Some goodArchive) filesToRead) ''word/styles.xml''
   = goodStylesXml"
  by code_simp

lemma goodArchive_numbersOk:
  "\<forall>(name, doc) \<in> set goodArchive. \<forall>e \<in> set doc. numbersOk stof_decimal e"
  by code_simp

lemma goodStyles_basedOn:
  assumes "parseStyles stof goodStylesXml = Returns st" and "st i = Some cur"
  shows "basedOn cur = [] \<or> (i = ''Strong'' \<and> basedOn cur = ''Normal'')"
  using parseStyles_lookup [OF assms]
  apply (simp add: goodStylesXml_def RootElement_def ChildElements_def)
  apply (auto simp: childAttr_def FirstChildElement_def Attribute_def attrOr_def)
  done

lemma goodStyles_chain_ends:
  assumes "parseStyles stof goodStylesXml = Returns st"
  shows "chain_ends st Map.empty i"
proof (cases "st i")
  case None then show ?thesis by (rule chain_unknown)
next
  case (Some cur)
  show ?thesis
  proof (cases "basedOn cur = []")
    case True
    with Some show ?thesis by (metis chain_step chain_empty)
  next
    case False
    with goodStyles_basedOn [OF assms Some] have b: "basedOn cur = ''Normal''" by simp
    have "chain_ends st Map.empty ''Normal''"
    proof (cases "st ''Normal''")
      case None then show ?thesis by (rule chain_unknown)
    next
      case (Some cur')
      with goodStyles_basedOn [OF assms Some] have "basedOn cur' = []" by simp 
      with Some show ?thesis by (metis chain_step chain_empty)
    qed
    with Some b show ?thesis by (metis chain_step)
  qed
qed

theorem entry_points_return_witness:
  "list_all (\<lambda>(name, doc). list_all (numbersOk stof_decimal) doc) goodArchive
   \<and> returns (readDocument stof_decimal (Some goodArchive))
   \<and> returns (readDocumentFromMemory stof_decimal (Some goodArchive))"
proof -
  have "\<forall>st. parseStyles stof_decimal
                (fileOf (readMultipleFilesFromZIP (Some goodArchive) filesToRead)
                   ''word/styles.xml'')
              = Returns st \<longrightarrow> (\<forall>i. chain_ends st Map.empty i)"
    unfolding goodArchive_styles by (auto intro: goodStyles_chain_ends)
  from entry_points_return [OF goodArchive_numbersOk this] goodArchive_numbersOk
  show ?thesis by (simp add: list_all_iff case_prod_beta)
qed

text \<open>
  With the font size "abc" in styles.xml, \<^verbatim>\<open>std::invalid_argument\<close> leaves both entry
  points.
\<close>

theorem malformed_number_raises:
  "readDocument stof_decimal (Some badArchive) = Throws invalid_argument
   \<and> readDocumentFromMemory stof_decimal (Some badArchive) = Throws invalid_argument"
proof -
  have "thrown (readDocument stof_decimal (Some badArchive)) = Some invalid_argument"
    by code_simp
  moreover
  have "thrown (readDocumentFromMemory stof_decimal (Some badArchive)) = Some invalid_argument"
    by code_simp
  ultimately show ?thesis by (simp add: thrown_iff)
qed

subsection \<open>The note id of a run\<close>























end
